theory Spec2Isabelle
  imports Complex_Main "HOL-Library.AList"
begin

section \<open>Data model\<close>

text \<open>
  Accounts and commodities are interned singletons in the source (\<open>*ledger.Account\<close>,
  \<open>*ledger.Commodity\<close>), so pointer equality coincides with equality of the values below.
  \<open>decimal.Decimal\<close> is an arbitrary-precision decimal whose \<open>Add\<close> and \<open>Sub\<close> are exact;
  it is embedded into the rationals. Its zero value is \<open>0\<close>.
\<close>

datatype AccountType = ASSETS | LIABILITIES | EQUITY | INCOME | EXPENSES

record Account =
  Type :: AccountType
  Name :: string

type_synonym Commodity = string

type_synonym decimal = rat

type_synonym date = int

text \<open>\<open>CommodityAccount\<close> of the balance package: a position.\<close>

record CommodityAccount =
  Account :: Account
  Commodity :: Commodity

text \<open>
  A Go \<open>map[K]V\<close> is an association list. \<open>m[k]\<close> on a missing key yields the zero value
  of \<open>V\<close>; \<open>m[k] = v\<close> is \<^const>\<open>AList.update\<close>; \<open>delete(m, k)\<close> is \<^const>\<open>AList.delete\<close>;
  \<open>for k, v := range m\<close> visits the entries of the list, whose order stands for whichever
  order the runtime picks.
\<close>

type_synonym ('k, 'v) gomap = "('k \<times> 'v) list"

definition get_decimal :: "('k, decimal) gomap \<Rightarrow> 'k \<Rightarrow> decimal" where
  "get_decimal m k = (case map_of m k of Some v \<Rightarrow> v | None \<Rightarrow> 0)"

definition get_bool :: "('k, bool) gomap \<Rightarrow> 'k \<Rightarrow> bool" where
  "get_bool m k = (case map_of m k of Some v \<Rightarrow> v | None \<Rightarrow> False)"

record Posting =
  Credit :: Account
  Debit :: Account
  PCommodity :: Commodity
  Amount :: decimal
  Value :: decimal

record Transaction =
  TDate :: date
  Description :: string
  Postings :: "Posting list"

type_synonym Accounts = "(Account, bool) gomap"

type_synonym NormalizedPrices = "(Commodity, (Commodity, decimal) gomap) gomap"

record Balance =
  BDate :: date
  Amounts :: "(CommodityAccount, decimal) gomap"
  Values :: "(CommodityAccount, decimal) gomap"
  Accounts :: Accounts
  Valuation :: "Commodity option"
  NormalizedPrices :: NormalizedPrices

datatype Error =
    CreditNotOpen Transaction Account
  | DebitNotOpen Transaction Account
  | AlreadyOpen Account
  | AlreadyClosed Account
  | AccountStateError Account
  | NoValuationFound Commodity
  | UnknownElem
  | WriteError

section \<open>The open-account set\<close>

text \<open>\<open>Accounts.Open\<close>, \<open>Accounts.Close\<close>, \<open>Accounts.IsOpen\<close> and \<open>Accounts.Copy\<close>.
  The map is mutated in place; the model returns the map after the call with the error.\<close>

definition Open :: "Accounts \<Rightarrow> Account \<Rightarrow> Accounts \<times> Error option" where
  "Open oa a =
     (if get_bool oa a then (oa, Some (AlreadyOpen a))
      else (AList.update a True oa, None))"

definition Close :: "Accounts \<Rightarrow> Account \<Rightarrow> Accounts \<times> Error option" where
  "Close oa a =
     (if \<not> get_bool oa a then (oa, Some (AlreadyClosed a))
      else (AList.delete a oa, None))"

definition IsOpen :: "Accounts \<Rightarrow> Account \<Rightarrow> bool" where
  "IsOpen oa a = (if get_bool oa a then True else Type a = EQUITY)"

definition Accounts_Copy :: "Accounts \<Rightarrow> Accounts" where
  "Accounts_Copy oa = fold (\<lambda>(a, _) res. AList.update a True res) oa []"

section \<open>Booking\<close>

definition New :: "Commodity option \<Rightarrow> Balance" where
  "New valuation =
     \<lparr>BDate = 0, Amounts = [], Values = [], Accounts = [], Valuation = valuation,
      NormalizedPrices = []\<rparr>"

definition crPos :: "Posting \<Rightarrow> CommodityAccount" where
  "crPos posting = \<lparr>Account = Credit posting, Commodity = PCommodity posting\<rparr>"

definition drPos :: "Posting \<Rightarrow> CommodityAccount" where
  "drPos posting = \<lparr>Account = Debit posting, Commodity = PCommodity posting\<rparr>"

text \<open>One iteration of the loop body of \<open>Balance.bookAmount\<close> after both checks passed.\<close>

definition bookPosting :: "Balance \<Rightarrow> Posting \<Rightarrow> Balance" where
  "bookPosting b posting =
     (let b1 = b\<lparr>Amounts := AList.update (crPos posting)
                    (get_decimal (Amounts b) (crPos posting) - Amount posting) (Amounts b)\<rparr>
      in b1\<lparr>Amounts := AList.update (drPos posting)
                    (get_decimal (Amounts b1) (drPos posting) + Amount posting) (Amounts b1)\<rparr>)"

text \<open>\<open>Balance.bookAmount\<close>: the receiver is mutated posting by posting, and an account
  that is not open returns the error with the postings before it already booked.\<close>

fun bookAmount_loop :: "Balance \<Rightarrow> Transaction \<Rightarrow> Posting list \<Rightarrow> Balance \<times> Error option" where
  "bookAmount_loop b t [] = (b, None)"
| "bookAmount_loop b t (posting # rest) =
     (if \<not> IsOpen (Accounts b) (Credit posting) then (b, Some (CreditNotOpen t (Credit posting)))
      else if \<not> IsOpen (Accounts b) (Debit posting) then (b, Some (DebitNotOpen t (Debit posting)))
      else bookAmount_loop (bookPosting b posting) t rest)"

definition bookAmount :: "Balance \<Rightarrow> Transaction \<Rightarrow> Balance \<times> Error option" where
  "bookAmount b t = bookAmount_loop b t (Postings t)"

section \<open>Balances behind pointers\<close>

text \<open>
  \<open>Copy\<close>, \<open>Minus\<close> and \<open>Diffs\<close> work on \<open>*Balance\<close> and mutate their receiver, so the
  balances live in a store: a pointer is an index into the list of allocated balances,
  allocation appends, and dereferencing a pointer outside the store is the nil-pointer
  panic (\<open>None\<close>). The maps of a balance are only ever created by \<open>New\<close>, so no two
  balances of the store share a map and each balance carries its own.
\<close>

type_synonym ptr = nat

type_synonym heap = "Balance list"

definition Balance_Copy :: "Balance \<Rightarrow> Balance" where
  "Balance_Copy b =
     (let nb = New (Valuation b);
          nb = nb\<lparr>BDate := BDate b\<rparr>;
          nb = nb\<lparr>NormalizedPrices := NormalizedPrices b\<rparr>;
          nb = nb\<lparr>Amounts := fold (\<lambda>(pos, amt) m. AList.update pos amt m) (Amounts b) (Amounts nb)\<rparr>;
          nb = nb\<lparr>Values := fold (\<lambda>(pos, val) m. AList.update pos val m) (Values b) (Values nb)\<rparr>
      in nb\<lparr>Accounts := Accounts_Copy (Accounts b)\<rparr>)"

definition Copy :: "heap \<Rightarrow> ptr \<Rightarrow> (heap \<times> ptr) option" where
  "Copy h b = (if b < length h then Some (h @ [Balance_Copy (h ! b)], length h) else None)"

text \<open>The loop \<open>for pos, va := range bo { b[pos] = b[pos].Sub(va) }\<close> of \<open>Balance.Minus\<close>.\<close>

definition Minus_range :: "(CommodityAccount, decimal) gomap \<Rightarrow> (CommodityAccount, decimal) gomap
    \<Rightarrow> (CommodityAccount, decimal) gomap" where
  "Minus_range b bo = fold (\<lambda>(pos, va) m. AList.update pos (get_decimal m pos - va) m) bo b"

definition Minus :: "heap \<Rightarrow> ptr \<Rightarrow> ptr \<Rightarrow> heap option" where
  "Minus h b bo =
     (if b < length h \<and> bo < length h then
        (let h1 = h[b := (h ! b)\<lparr>Amounts := Minus_range (Amounts (h ! b)) (Amounts (h ! bo))\<rparr>];
             h2 = h1[b := (h1 ! b)\<lparr>Values := Minus_range (Values (h1 ! b)) (Values (h1 ! bo))\<rparr>]
         in Some h2)
      else None)"

text \<open>\<open>Diffs\<close>: the loop counts \<open>i\<close> down from \<open>len(bals) - 1\<close> to \<open>1\<close>; the argument of
  \<open>Diffs_loop\<close> is \<open>i\<close>. \<open>bals[1:]\<close> on an empty slice panics.\<close>

fun Diffs_loop :: "heap \<Rightarrow> ptr list \<Rightarrow> nat \<Rightarrow> heap option" where
  "Diffs_loop h bals 0 = Some h"
| "Diffs_loop h bals (Suc j) =
     (case Minus h (bals ! Suc j) (bals ! j) of
        None \<Rightarrow> None
      | Some h' \<Rightarrow> Diffs_loop h' bals j)"

definition Diffs :: "heap \<Rightarrow> ptr list \<Rightarrow> (heap \<times> ptr list) option" where
  "Diffs h bals =
     (case Diffs_loop h bals (length bals - 1) of
        None \<Rightarrow> None
      | Some h' \<Rightarrow> (if bals = [] then None else Some (h', drop 1 bals)))"

text \<open>A map has every key once: the association lists of a balance that stand for Go maps
  have distinct keys.\<close>

definition wf_Balance :: "Balance \<Rightarrow> bool" where
  "wf_Balance b = (distinct (map fst (Amounts b)) \<and> distinct (map fst (Values b)))"

section \<open>Closing accounts\<close>

text \<open>
  Modelled from the spec: \<open>AccountCloser.Process\<close>, the last processor that
  \<open>Builder.Build\<close> runs for every day. Only its use is part of the sources. The spec:
  "Close: requires zero balance across all commodities for that account, else fails;
  otherwise removes from open set", the failure being an account-state error. The removal
  is \<open>Accounts.Close\<close> of the sources.
\<close>

definition hasNonzeroPosition :: "(CommodityAccount, decimal) gomap \<Rightarrow> Account \<Rightarrow> bool" where
  "hasNonzeroPosition amts a = list_ex (\<lambda>(pos, amount). Account pos = a \<and> amount \<noteq> 0) amts"

definition closeAccount :: "Balance \<Rightarrow> Account \<Rightarrow> Balance \<times> Error option" where
  "closeAccount b a =
     (if hasNonzeroPosition (Amounts b) a then (b, Some (AccountStateError a))
      else (case Close (Accounts b) a of (oa, err) \<Rightarrow> (b\<lparr>Accounts := oa\<rparr>, err)))"

fun AccountCloser_Process :: "Balance \<Rightarrow> Account list \<Rightarrow> Balance \<times> Error option" where
  "AccountCloser_Process b [] = (b, None)"
| "AccountCloser_Process b (c # closings) =
     (case closeAccount b c of
        (b', Some err) \<Rightarrow> (b', Some err)
      | (b', None) \<Rightarrow> AccountCloser_Process b' closings)"

section \<open>Days of the processing pipeline\<close>

text \<open>The \<open>ast\<close> package's posting, transaction and directives, as far as the processors
  below read them. \<open>ast.Day\<close> holds the directives of one date by kind, the amounts booked up
  to that date, the values and the normalized prices; \<open>val.Day\<close> wraps an \<open>ast.Day\<close>.\<close>

record ast_Posting =
  ACredit :: Account
  ADebit :: Account
  ACommodity :: Commodity
  AAmount :: decimal
  Targets :: "Commodity list"

record ast_Transaction =
  ADate :: date
  ADescription :: string
  APostings :: "ast_Posting list"

datatype ast_Open = ast_Open (ODate: date) (OAccount: Account)

datatype ast_Price = ast_Price (PDate: date) (PrCommodity: Commodity) (PrPrice: decimal) (PrTarget: Commodity)

datatype ast_Assertion = ast_Assertion (AsDate: date) (AsAccount: Account) (AsAmount: decimal) (AsCommodity: Commodity)

datatype ast_Value = ast_Value (VaDate: date) (VaAccount: Account) (VaAmount: decimal) (VaCommodity: Commodity)

datatype ast_Close = ast_Close (CDate: date) (CAccount: Account)

type_synonym amounts = "(CommodityAccount, decimal) gomap"

record Day =
  DDate :: date
  DPrices :: "ast_Price list"
  DAssertions :: "ast_Assertion list"
  DValues :: "ast_Value list"
  DOpenings :: "ast_Open list"
  DTransactions :: "ast_Transaction list"
  DClosings :: "ast_Close list"
  DAmounts :: amounts
  DValue :: amounts
  DNormalized :: NormalizedPrices

record val_Day =
  VDate :: date
  VDay :: Day
  VValues :: amounts
  VPrices :: NormalizedPrices
  VTransactions :: "ast_Transaction list"

text \<open>
  Modelled from the spec: \<open>amounts.Amounts\<close> with its \<open>Clone\<close>, \<open>Minus\<close> and \<open>Book\<close>, whose
  package is not part of the sources. The spec: "Amounts: mapping (Account,Commodity)
  to decimal; supports Clone (independent copy) and Minus (pointwise subtraction)", and
  booking is \<open>Amounts[credit,commodity] -= qty; Amounts[debit,commodity] += qty\<close>.
  A nil map is the empty list.
\<close>

definition Amounts_Clone :: "amounts \<Rightarrow> amounts" where
  "Amounts_Clone am = fold (\<lambda>(pos, amt) m. AList.update pos amt m) am []"

definition Amounts_Minus :: "amounts \<Rightarrow> amounts \<Rightarrow> amounts" where
  "Amounts_Minus am other = fold (\<lambda>(pos, va) m. AList.update pos (get_decimal m pos - va) m) other am"

definition Book :: "amounts \<Rightarrow> Account \<Rightarrow> Account \<Rightarrow> decimal \<Rightarrow> Commodity \<Rightarrow> amounts" where
  "Book am credit debit a c =
     (let crPos = \<lparr>Account = credit, Commodity = c\<rparr>;
          drPos = \<lparr>Account = debit, Commodity = c\<rparr>;
          am1 = AList.update crPos (get_decimal am crPos - a) am
      in AList.update drPos (get_decimal am1 drPos + a) am1)"

text \<open>Modelled from the spec: the constructor \<open>ast.NewPostingWithTargets\<close>, which is not
  part of the sources; it fills the posting's fields from its arguments.\<close>

definition NewPostingWithTargets ::
    "Account \<Rightarrow> Account \<Rightarrow> Commodity \<Rightarrow> decimal \<Rightarrow> Commodity list \<Rightarrow> ast_Posting" where
  "NewPostingWithTargets crAccount drAccount commodity amt targets =
     \<lparr>ACredit = crAccount, ADebit = drAccount, ACommodity = commodity, AAmount = amt,
      Targets = targets\<rparr>"

section \<open>The differ\<close>

text \<open>\<open>Differ.Process2\<close>. The input channel is the list of days it delivers and the result
  the list of days pushed, for a run that is not cancelled. \<open>prev\<close> starts as the nil map.\<close>

fun Differ_loop :: "amounts \<Rightarrow> Day list \<Rightarrow> Day list" where
  "Differ_loop prev [] = []"
| "Differ_loop prev (d # inCh) =
     (let diff = Amounts_Minus (Amounts_Clone (DValue d)) prev
      in d\<lparr>DValue := diff\<rparr> # Differ_loop (DValue d) inCh)"

definition Differ_Process2 :: "bool \<Rightarrow> Day list \<Rightarrow> Day list" where
  "Differ_Process2 Diff inCh = (if \<not> Diff then inCh else Differ_loop [] inCh)"

section \<open>Valuation adjustments\<close>

text \<open>
  \<open>NormalizedPrices.Valuate\<close> and \<open>Context.ValuationAccountFor\<close> are not part of the
  sources and are parameters: \<open>Valuate prices commodity amount\<close> is \<open>None\<close> when the call
  returns an error, and the valuator carries the function from an account to its
  valuation account. A function that panics returns \<open>Panic\<close> with the message.
\<close>

type_synonym Valuate = "NormalizedPrices \<Rightarrow> Commodity \<Rightarrow> decimal \<Rightarrow> decimal option"

record Valuator =
  ValuationAccountFor :: "Account \<Rightarrow> Account"
  PValuation :: "Commodity option"

datatype 'a outcome = Return 'a | Panic string

definition adjustment :: "Valuator \<Rightarrow> date \<Rightarrow> CommodityAccount \<Rightarrow> decimal \<Rightarrow> ast_Transaction" where
  "adjustment pr d pos diff =
     \<lparr>ADate = d,
      ADescription = ''Adjust value of '' @ Commodity pos @ '' in account '' @ Name (Account pos),
      APostings = [NewPostingWithTargets (ValuationAccountFor pr (Account pos)) (Account pos)
                     (Commodity pos) diff [Commodity pos]]\<rparr>"

text \<open>\<open>Valuator.computeValuationTransactions\<close>: the loop over \<open>day.Day.Amounts\<close>.\<close>

fun computeValuationTransactions_range ::
    "Valuate \<Rightarrow> Valuator \<Rightarrow> (CommodityAccount \<times> decimal) list \<Rightarrow> val_Day \<Rightarrow> val_Day outcome" where
  "computeValuationTransactions_range V pr [] day = Return day"
| "computeValuationTransactions_range V pr ((pos, va) # rest) day =
     (if Some (Commodity pos) = PValuation pr then computeValuationTransactions_range V pr rest day
      else if Type (Account pos) \<noteq> ASSETS \<and> Type (Account pos) \<noteq> LIABILITIES
        then computeValuationTransactions_range V pr rest day
      else (case V (VPrices day) (Commodity pos) va of
              None \<Rightarrow> Panic (''no valuation found for commodity '' @ Commodity pos)
            | Some val \<Rightarrow>
                (let diff = val - get_decimal (VValues day) pos
                 in if diff = 0 then computeValuationTransactions_range V pr rest day
                    else (let credit = ValuationAccountFor pr (Account pos);
                              day1 = day\<lparr>VTransactions := VTransactions day @ [adjustment pr (VDate day) pos diff]\<rparr>;
                              day2 = day1\<lparr>VValues := Book (VValues day1) credit (Account pos) diff (Commodity pos)\<rparr>
                          in computeValuationTransactions_range V pr rest day2))))"

definition computeValuationTransactions :: "Valuate \<Rightarrow> Valuator \<Rightarrow> val_Day \<Rightarrow> val_Day outcome" where
  "computeValuationTransactions V pr day =
     (if PValuation pr = None then Return day
      else computeValuationTransactions_range V pr (DAmounts (VDay day)) day)"

text \<open>\<open>Valuator.processValuationTransactions2\<close>: the same loop over \<open>d.Amounts\<close> of an
  \<open>ast.Day\<close>, returning an error where the other panics.\<close>

fun processValuationTransactions2_range ::
    "Valuate \<Rightarrow> Valuator \<Rightarrow> (CommodityAccount \<times> decimal) list \<Rightarrow> Day \<Rightarrow> Day \<times> Error option" where
  "processValuationTransactions2_range V pr [] d = (d, None)"
| "processValuationTransactions2_range V pr ((pos, va) # rest) d =
     (if Some (Commodity pos) = PValuation pr then processValuationTransactions2_range V pr rest d
      else if Type (Account pos) \<noteq> ASSETS \<and> Type (Account pos) \<noteq> LIABILITIES
        then processValuationTransactions2_range V pr rest d
      else (case V (DNormalized d) (Commodity pos) va of
              None \<Rightarrow> (d, Some (NoValuationFound (Commodity pos)))
            | Some val \<Rightarrow>
                (let diff = val - get_decimal (DValue d) pos
                 in if diff = 0 then processValuationTransactions2_range V pr rest d
                    else (let credit = ValuationAccountFor pr (Account pos);
                              t = adjustment pr (DDate d) pos diff;
                              d1 = d\<lparr>DValue := Book (DValue d) credit (Account pos) diff (Commodity pos)\<rparr>;
                              d2 = d1\<lparr>DTransactions := DTransactions d1 @ [t]\<rparr>
                          in processValuationTransactions2_range V pr rest d2))))"

definition processValuationTransactions2 :: "Valuate \<Rightarrow> Valuator \<Rightarrow> Day \<Rightarrow> Day \<times> Error option" where
  "processValuationTransactions2 V pr d = processValuationTransactions2_range V pr (DAmounts d) d"

text \<open>The call in \<open>Valuator.Process2\<close>: \<open>pr.processValuationTransactions2(day)\<close> is a
  statement, its error is dropped and the day is pushed downstream as it is then.\<close>

definition Process2_adjust :: "Valuate \<Rightarrow> Valuator \<Rightarrow> Day \<Rightarrow> Day" where
  "Process2_adjust V pr day = fst (processValuationTransactions2 V pr day)"

text \<open>
  The claim's words for the adjustment step, to compare both functions with: a position is
  revalued when its commodity is not the valuation commodity and its account is an asset
  or a liability; the adjustments of a day are, in the order of the positions, one
  transaction for every revalued position whose recomputed value differs from the value
  recorded: dated as the day, with one posting that credits the valuation account of the
  position's account, debits the position's account, and carries the position's commodity
  and the recomputed value minus the recorded value. It is written out field by field and
  does not use the constructor that the functions call.
\<close>

definition isRevalued :: "Valuator \<Rightarrow> CommodityAccount \<Rightarrow> bool" where
  "isRevalued pr pos =
     (Some (Commodity pos) \<noteq> PValuation pr \<and>
      (Type (Account pos) = ASSETS \<or> Type (Account pos) = LIABILITIES))"

definition adjustments ::
    "Valuate \<Rightarrow> Valuator \<Rightarrow> NormalizedPrices \<Rightarrow> date \<Rightarrow> amounts \<Rightarrow> (CommodityAccount \<times> decimal) list
      \<Rightarrow> ast_Transaction list" where
  "adjustments V pr prices d vals ps =
     map (\<lambda>(pos, va).
           \<lparr>ADate = d,
             ADescription = ''Adjust value of '' @ Commodity pos @ '' in account '' @ Name (Account pos),
             APostings =
               [\<lparr>ACredit = ValuationAccountFor pr (Account pos), ADebit = Account pos,
                 ACommodity = Commodity pos,
                 AAmount = the (V prices (Commodity pos) va) - get_decimal vals pos,
                 Targets = [Commodity pos]\<rparr>]\<rparr>)
       (filter (\<lambda>(pos, va). isRevalued pr pos \<and> the (V prices (Commodity pos) va) \<noteq> get_decimal vals pos) ps)"

section \<open>The sorter\<close>

text \<open>An element travelling through the processors is a dated value of any type
  (\<open>ast.Dated\<close> with \<open>Elem interface{}\<close>); \<open>EOther\<close> stands for every type that is not a
  directive.\<close>

datatype Elem =
    EOpen ast_Open
  | EPrice ast_Price
  | ETransaction ast_Transaction
  | EAssertion ast_Assertion
  | EValue ast_Value
  | EClose ast_Close
  | EOther

type_synonym Dated = "date \<times> Elem"

type_synonym AST = "(date, Day) gomap"

text \<open>
  Modelled from the spec: \<open>ast.AST\<close> with \<open>AddOpen\<close>, \<open>AddPrice\<close>, \<open>AddTransaction\<close>,
  \<open>AddAssertion\<close>, \<open>AddValue\<close>, \<open>AddClose\<close> and \<open>SortedDays\<close>, whose package is not part of
  the sources. The spec: "Day: all directives dated on one calendar date, split by kind;
  Days form a Date to Day mapping materialized as an ascending sequence". This is what
  \<open>ledger.Builder\<close> of the sources does with \<open>getOrCreate\<close>, \<open>append\<close> and \<open>sort.Slice\<close>.
\<close>

definition newDay :: "date \<Rightarrow> Day" where
  "newDay d =
     \<lparr>DDate = d, DPrices = [], DAssertions = [], DValues = [], DOpenings = [],
      DTransactions = [], DClosings = [], DAmounts = [], DValue = [], DNormalized = []\<rparr>"

definition AST_Day :: "AST \<Rightarrow> date \<Rightarrow> Day" where
  "AST_Day a d = (case map_of a d of Some day \<Rightarrow> day | None \<Rightarrow> newDay d)"

definition AddOpen :: "AST \<Rightarrow> ast_Open \<Rightarrow> AST" where
  "AddOpen a t = (let s = AST_Day a (ODate t) in AList.update (ODate t) (s\<lparr>DOpenings := DOpenings s @ [t]\<rparr>) a)"

definition AddPrice :: "AST \<Rightarrow> ast_Price \<Rightarrow> AST" where
  "AddPrice a t = (let s = AST_Day a (PDate t) in AList.update (PDate t) (s\<lparr>DPrices := DPrices s @ [t]\<rparr>) a)"

definition AddTransaction :: "AST \<Rightarrow> ast_Transaction \<Rightarrow> AST" where
  "AddTransaction a t =
     (let s = AST_Day a (ADate t) in AList.update (ADate t) (s\<lparr>DTransactions := DTransactions s @ [t]\<rparr>) a)"

definition AddAssertion :: "AST \<Rightarrow> ast_Assertion \<Rightarrow> AST" where
  "AddAssertion a t =
     (let s = AST_Day a (AsDate t) in AList.update (AsDate t) (s\<lparr>DAssertions := DAssertions s @ [t]\<rparr>) a)"

definition AddValue :: "AST \<Rightarrow> ast_Value \<Rightarrow> AST" where
  "AddValue a t = (let s = AST_Day a (VaDate t) in AList.update (VaDate t) (s\<lparr>DValues := DValues s @ [t]\<rparr>) a)"

definition AddClose :: "AST \<Rightarrow> ast_Close \<Rightarrow> AST" where
  "AddClose a t = (let s = AST_Day a (CDate t) in AList.update (CDate t) (s\<lparr>DClosings := DClosings s @ [t]\<rparr>) a)"

definition SortedDays :: "AST \<Rightarrow> Day list" where
  "SortedDays a = map snd (sort_key fst a)"

text \<open>\<open>Sorter.Process\<close> files the element under its date; \<open>Sorter.Finalize\<close> hands the
  sorted directives to \<open>next\<close>, one after the other. The result is the sequence offered to
  a \<open>next\<close> that keeps accepting.\<close>

definition Sorter_Process :: "AST \<Rightarrow> Dated \<Rightarrow> AST \<times> Error option" where
  "Sorter_Process a d =
     (case snd d of
        EOpen t \<Rightarrow> (AddOpen a t, None)
      | EPrice t \<Rightarrow> (AddPrice a t, None)
      | ETransaction t \<Rightarrow> (AddTransaction a t, None)
      | EAssertion t \<Rightarrow> (AddAssertion a t, None)
      | EValue t \<Rightarrow> (AddValue a t, None)
      | EClose t \<Rightarrow> (AddClose a t, None)
      | EOther \<Rightarrow> (a, Some UnknownElem))"

definition Finalize_day :: "Day \<Rightarrow> Dated list" where
  "Finalize_day d =
     map (\<lambda>x. (ODate x, EOpen x)) (DOpenings d) @
     map (\<lambda>x. (PDate x, EPrice x)) (DPrices d) @
     map (\<lambda>x. (ADate x, ETransaction x)) (DTransactions d) @
     map (\<lambda>x. (VaDate x, EValue x)) (DValues d) @
     map (\<lambda>x. (AsDate x, EAssertion x)) (DAssertions d) @
     map (\<lambda>x. (CDate x, EClose x)) (DClosings d)"

definition Sorter_Finalize :: "AST \<Rightarrow> Dated list" where
  "Sorter_Finalize a = concat (map Finalize_day (SortedDays a))"

section \<open>The printer\<close>

text \<open>
  An \<open>io.Writer\<close> accepts bytes until its room is used up (\<open>None\<close>: it never fails); a write
  that does not fit is a short write with an error. \<open>Printer.Write\<close> counts the bytes
  written. \<open>fmt.Fprintf\<close> and \<open>io.WriteString\<close> format their text and call \<open>Write\<close> once.
\<close>

record Writer =
  out :: string
  room :: "nat option"

definition Writer_Write :: "Writer \<Rightarrow> string \<Rightarrow> Writer \<times> nat \<times> Error option" where
  "Writer_Write w bs =
     (case room w of
        None \<Rightarrow> (w\<lparr>out := out w @ bs\<rparr>, length bs, None)
      | Some r \<Rightarrow>
          (if length bs \<le> r then (w\<lparr>out := out w @ bs, room := Some (r - length bs)\<rparr>, length bs, None)
           else (w\<lparr>out := out w @ take r bs, room := Some 0\<rparr>, r, Some WriteError)))"

record Printer =
  writer :: Writer
  padding :: nat
  count :: nat

definition Write :: "Printer \<Rightarrow> string \<Rightarrow> Printer \<times> nat \<times> Error option" where
  "Write p bs = (case Writer_Write (writer p) bs of (w, n, err) \<Rightarrow> (p\<lparr>writer := w, count := count p + n\<rparr>, n, err))"

record model_Posting =
  MAccount :: Account
  MOther :: Account
  MAmount :: decimal
  MCommodity :: Commodity

record model_Transaction =
  MDate :: date
  MDescription :: string
  MPostings :: "model_Posting list"
  MTargets :: "Commodity list option"

text \<open>The date layout of \<open>time.Time.Format\<close> and \<open>decimal.Decimal.String\<close> belong to
  libraries and are parameters of the printer.\<close>

record Formats =
  Format :: "date \<Rightarrow> string"
  String :: "decimal \<Rightarrow> string"

definition newline :: string where
  "newline = [CHR 0x0A]"

definition quote :: string where
  "quote = [CHR 0x22]"

fun Join :: "string list \<Rightarrow> string \<Rightarrow> string" where
  "Join [] sep = []"
| "Join [s] sep = s"
| "Join (s # rest) sep = s @ sep @ Join rest sep"

text \<open>\<open>utf8.RuneCountInString\<close> on valid UTF-8: every byte that is not a continuation byte
  starts a rune.\<close>

definition RuneCountInString :: "string \<Rightarrow> nat" where
  "RuneCountInString s = length (filter (\<lambda>c. \<not> (128 \<le> (of_char c :: nat) \<and> (of_char c :: nat) < 192)) s)"

definition rightPad :: "Printer \<Rightarrow> Account \<Rightarrow> string" where
  "rightPad p a = Name a @ replicate (padding p - RuneCountInString (Name a)) (CHR '' '')"

definition leftPad :: "nat \<Rightarrow> string \<Rightarrow> string" where
  "leftPad n s = (if length s > n then s else replicate (n - length s) (CHR '' '') @ s)"

definition postingText :: "Formats \<Rightarrow> Printer \<Rightarrow> model_Posting \<Rightarrow> string" where
  "postingText F p t =
     rightPad p (MOther t) @ '' '' @ rightPad p (MAccount t) @ '' '' @
     leftPad 10 (String F (MAmount t)) @ '' '' @ MCommodity t"

definition printPosting :: "Formats \<Rightarrow> Printer \<Rightarrow> model_Posting \<Rightarrow> Printer \<times> nat \<times> Error option" where
  "printPosting F p t = Write p (postingText F p t)"

text \<open>The loop of \<open>Printer.printTransaction\<close> over \<open>t.Postings\<close>; \<open>i\<close> is the index of the
  posting at the head of the list.\<close>

fun printTransaction_range ::
    "Formats \<Rightarrow> nat \<Rightarrow> Printer \<Rightarrow> nat \<Rightarrow> model_Posting list \<Rightarrow> Printer \<times> nat \<times> Error option" where
  "printTransaction_range F start p i [] = (p, count p - start, None)"
| "printTransaction_range F start p i (po # rest) =
     (if i mod 2 = 0 then printTransaction_range F start p (i + 1) rest
      else (case printPosting F p po of
              (p1, _, Some err) \<Rightarrow> (p1, count p1 - start, Some err)
            | (p1, _, None) \<Rightarrow>
                (case Write p1 newline of
                   (p2, _, Some err) \<Rightarrow> (p2, count p2 - start, Some err)
                 | (p2, _, None) \<Rightarrow> printTransaction_range F start p2 (i + 1) rest)))"

definition targetsText :: "Commodity list \<Rightarrow> string" where
  "targetsText ts = ''@performance('' @ Join ts '','' @ '')'' @ newline"

definition headerText :: "Formats \<Rightarrow> model_Transaction \<Rightarrow> string" where
  "headerText F t = Format F (MDate t) @ '' '' @ quote @ MDescription t @ quote"

definition printTransaction :: "Formats \<Rightarrow> Printer \<Rightarrow> model_Transaction \<Rightarrow> Printer \<times> nat \<times> Error option" where
  "printTransaction F p t =
     (let start = count p
      in (case (case MTargets t of
                  None \<Rightarrow> (p, 0, None)
                | Some ts \<Rightarrow> Write p (targetsText ts)) of
            (p0, _, Some err) \<Rightarrow> (p0, count p0 - start, Some err)
          | (p0, _, None) \<Rightarrow>
              (case Write p0 (headerText F t) of
                 (p1, _, Some err) \<Rightarrow> (p1, count p1 - start, Some err)
               | (p1, _, None) \<Rightarrow>
                   (case Write p1 newline of
                      (p2, _, Some err) \<Rightarrow> (p2, count p2 - start, Some err)
                    | (p2, _, None) \<Rightarrow> printTransaction_range F start p2 0 (MPostings t)))))"

text \<open>\<open>New\<close> of the printer package.\<close>

definition Printer_New :: "Writer \<Rightarrow> Printer" where
  "Printer_New w = \<lparr>writer = w, padding = 0, count = 0\<rparr>"

text \<open>The printer after a write of \<open>bs\<close> that the writer accepted in full.\<close>

definition wrote :: "Printer \<Rightarrow> string \<Rightarrow> Printer" where
  "wrote p bs = p\<lparr>writer := (writer p)\<lparr>out := out (writer p) @ bs\<rparr>, count := count p + length bs\<rparr>"

section \<open>Example values\<close>

definition cash :: Account where
  "cash = \<lparr>Type = ASSETS, Name = ''Assets:Cash''\<rparr>"

definition food :: Account where
  "food = \<lparr>Type = EXPENSES, Name = ''Expenses:Food''\<rparr>"

definition equityOpening :: Account where
  "equityOpening = \<lparr>Type = EQUITY, Name = ''Equity:Opening''\<rparr>"

definition USD :: Commodity where
  "USD = ''USD''"

definition foodPosting :: Posting where
  "foodPosting = \<lparr>Credit = cash, Debit = food, PCommodity = USD, Amount = 10, Value = 0\<rparr>"

definition foodTransaction :: Transaction where
  "foodTransaction = \<lparr>TDate = 19358, Description = ''Lunch'', Postings = [foodPosting]\<rparr>"

definition equityPosting :: Posting where
  "equityPosting = \<lparr>Credit = equityOpening, Debit = cash, PCommodity = USD, Amount = 100, Value = 0\<rparr>"

definition equityTransaction :: Transaction where
  "equityTransaction = \<lparr>TDate = 19358, Description = ''Opening balance'', Postings = [equityPosting]\<rparr>"

text \<open>The balance after \<open>open Assets:Cash\<close>, and after \<open>open Expenses:Food\<close> as well.\<close>

definition cashOpened :: Balance where
  "cashOpened = (New None)\<lparr>Accounts := fst (Open (Accounts (New None)) cash)\<rparr>"

definition bothOpened :: Balance where
  "bothOpened = cashOpened\<lparr>Accounts := fst (Open (Accounts cashOpened) food)\<rparr>"

definition cashUSD :: CommodityAccount where
  "cashUSD = \<lparr>Account = cash, Commodity = USD\<rparr>"

definition foodUSD :: CommodityAccount where
  "foodUSD = \<lparr>Account = food, Commodity = USD\<rparr>"

text \<open>The balance after booking the lunch once and twice.\<close>

definition spentCash :: Balance where
  "spentCash = fst (bookAmount bothOpened foodTransaction)"

definition spentTwice :: Balance where
  "spentTwice = fst (bookAmount spentCash foodTransaction)"

definition firstDay :: Day where
  "firstDay = (newDay 19358)\<lparr>DValue := [(cashUSD, 5)]\<rparr>"

definition secondDay :: Day where
  "secondDay = (newDay 19359)\<lparr>DValue := [(cashUSD, 8)]\<rparr>"

text \<open>A printer on an empty buffer that never fails, and a transaction of the \<open>model\<close>
  package, which lists both sides of a booking as postings of their own.\<close>

definition isoFormats :: Formats where
  "isoFormats = \<lparr>Format = (\<lambda>d. ''2023-01-01''), String = (\<lambda>x. ''10.00'')\<rparr>"

definition cashSide :: model_Posting where
  "cashSide = \<lparr>MAccount = cash, MOther = food, MAmount = - 10, MCommodity = USD\<rparr>"

definition foodSide :: model_Posting where
  "foodSide = \<lparr>MAccount = food, MOther = cash, MAmount = 10, MCommodity = USD\<rparr>"

definition lunch :: model_Transaction where
  "lunch = \<lparr>MDate = 19358, MDescription = ''Lunch'', MPostings = [cashSide, foodSide], MTargets = None\<rparr>"

definition halfLunch :: model_Transaction where
  "halfLunch = lunch\<lparr>MPostings := [cashSide]\<rparr>"

definition buffer :: Printer where
  "buffer = Printer_New \<lparr>out = [], room = None\<rparr>"

text \<open>A day with holdings in CHF valued in USD, with a price for CHF and without one.\<close>

definition CHF :: Commodity where
  "CHF = ''CHF''"

definition cashCHF :: CommodityAccount where
  "cashCHF = \<lparr>Account = cash, Commodity = CHF\<rparr>"

definition foodCHF :: CommodityAccount where
  "foodCHF = \<lparr>Account = food, Commodity = CHF\<rparr>"

definition usdValuator :: Valuator where
  "usdValuator =
     \<lparr>ValuationAccountFor = (\<lambda>a. \<lparr>Type = EQUITY, Name = ''Equity:Valuation:'' @ Name a\<rparr>),
      PValuation = Some USD\<rparr>"

definition fixedRate :: Valuate where
  "fixedRate prices c a = (if c = CHF then Some (a * 11 / 10) else None)"

definition noPath :: Valuate where
  "noPath prices c a = None"

definition holdings :: Day where
  "holdings = (newDay 19358)\<lparr>DAmounts := [(cashCHF, 100), (foodCHF, 50), (cashUSD, 7)],
                              DValue := [(cashCHF, 100)]\<rparr>"

definition valHoldings :: val_Day where
  "valHoldings =
     \<lparr>VDate = 19358, VDay = holdings, VValues = [(cashCHF, 100)], VPrices = [], VTransactions = []\<rparr>"

definition cashOpen :: ast_Open where
  "cashOpen = ast_Open 19358 cash"

definition chfPrice :: ast_Price where
  "chfPrice = ast_Price 19358 CHF (11 / 10) USD"

section \<open>Lookups after updates\<close>

lemmas ex_defs = cash_def food_def equityOpening_def USD_def foodPosting_def foodTransaction_def
  equityPosting_def equityTransaction_def cashOpened_def bothOpened_def

lemma get_decimal_update: "get_decimal (AList.update k v m) k' = (if k' = k then v else get_decimal m k')"
  by (simp add: get_decimal_def update_conv')

lemma get_bool_delete: "get_bool (AList.delete k m) k' = (if k' = k then False else get_bool m k')"
  by (simp add: get_bool_def delete_conv')

section \<open>Booking a transaction\<close>

lemma Accounts_bookPosting: "Accounts (bookPosting b p) = Accounts b"
  by (simp add: bookPosting_def Let_def)

lemma get_bookPosting:
  "get_decimal (Amounts (bookPosting b p)) k =
     get_decimal (Amounts b) k - (if crPos p = k then Amount p else 0) + (if drPos p = k then Amount p else 0)"
  by (auto simp add: bookPosting_def Let_def get_decimal_update)

lemma map_of_bookPosting:
  "k \<noteq> crPos p \<Longrightarrow> k \<noteq> drPos p \<Longrightarrow> map_of (Amounts (bookPosting b p)) k = map_of (Amounts b) k"
  by (simp add: bookPosting_def Let_def update_conv')

lemma bookAmount_loop_ok:
  "\<forall>p\<in>set ps. IsOpen (Accounts b) (Credit p) \<and> IsOpen (Accounts b) (Debit p) \<Longrightarrow>
   snd (bookAmount_loop b t ps) = None \<and>
   (\<forall>k. get_decimal (Amounts (fst (bookAmount_loop b t ps))) k =
        get_decimal (Amounts b) k - (\<Sum>p\<leftarrow>ps. if crPos p = k then Amount p else 0)
          + (\<Sum>p\<leftarrow>ps. if drPos p = k then Amount p else 0)) \<and>
   (\<forall>k. (\<forall>p\<in>set ps. k \<noteq> crPos p \<and> k \<noteq> drPos p) \<longrightarrow>
        map_of (Amounts (fst (bookAmount_loop b t ps))) k = map_of (Amounts b) k)"
proof (induction ps arbitrary: b)
  case Nil
  then show ?case by simp
next
  case (Cons p ps)
  have open': "\<forall>q\<in>set ps. IsOpen (Accounts (bookPosting b p)) (Credit q) \<and> IsOpen (Accounts (bookPosting b p)) (Debit q)"
    using Cons.prems by (simp add: Accounts_bookPosting)
  note IH = Cons.IH [OF open']
  have step: "bookAmount_loop b t (p # ps) = bookAmount_loop (bookPosting b p) t ps"
    using Cons.prems by simp
  show ?case
    unfolding step using IH by (simp add: get_bookPosting map_of_bookPosting)
qed

lemma bookAmount_loop_err:
  "(snd (bookAmount_loop b t ps) \<noteq> None) =
   (\<exists>p\<in>set ps. \<not> IsOpen (Accounts b) (Credit p) \<or> \<not> IsOpen (Accounts b) (Debit p))"
  by (induction ps arbitrary: b) (auto simp add: Accounts_bookPosting)

text \<open>
  Claim C1, as the code has it. When every credit and debit account of a transaction is
  open, \<open>bookAmount\<close> returns no error; the amount of every position afterwards is the
  amount before, minus the quantities of the postings crediting the position, plus the
  quantities of the postings debiting it; and a position that no posting names keeps its
  entry as it was, present or absent.
\<close>

theorem bookAmount_books_every_posting:
  assumes "\<forall>p\<in>set (Postings t). IsOpen (Accounts b) (Credit p) \<and> IsOpen (Accounts b) (Debit p)"
  shows "snd (bookAmount b t) = None \<and>
    (\<forall>k. get_decimal (Amounts (fst (bookAmount b t))) k =
        get_decimal (Amounts b) k - (\<Sum>p\<leftarrow>Postings t. if crPos p = k then Amount p else 0)
          + (\<Sum>p\<leftarrow>Postings t. if drPos p = k then Amount p else 0)) \<and>
    (\<forall>k. (\<forall>p\<in>set (Postings t). k \<noteq> crPos p \<and> k \<noteq> drPos p) \<longrightarrow>
        map_of (Amounts (fst (bookAmount b t))) k = map_of (Amounts b) k)"
  unfolding bookAmount_def using assms by (rule bookAmount_loop_ok)

text \<open>The example of the claim with both accounts opened: 10.00 USD from \<open>Assets:Cash\<close> to
  \<open>Expenses:Food\<close> leaves \<open>-10\<close> and \<open>10\<close>, and no entry elsewhere.\<close>

theorem bookAmount_books_every_posting_witness:
  "IsOpen (Accounts bothOpened) cash \<and> IsOpen (Accounts bothOpened) food \<and>
   snd (bookAmount bothOpened foodTransaction) = None \<and>
   get_decimal (Amounts (fst (bookAmount bothOpened foodTransaction))) \<lparr>Account = cash, Commodity = USD\<rparr> = - 10 \<and>
   get_decimal (Amounts (fst (bookAmount bothOpened foodTransaction))) \<lparr>Account = food, Commodity = USD\<rparr> = 10 \<and>
   map_of (Amounts (fst (bookAmount bothOpened foodTransaction))) \<lparr>Account = equityOpening, Commodity = USD\<rparr> = None"
proof -
  have h: "\<forall>p\<in>set (Postings foodTransaction). IsOpen (Accounts bothOpened) (Credit p) \<and> IsOpen (Accounts bothOpened) (Debit p)"
    by (simp add: ex_defs New_def Open_def IsOpen_def get_bool_def)
  have a: "get_decimal (Amounts bothOpened) k = 0" for k
    by (simp add: ex_defs New_def get_decimal_def)
  have m: "map_of (Amounts bothOpened) k = None" for k
    by (simp add: ex_defs New_def)
  have o: "IsOpen (Accounts bothOpened) cash \<and> IsOpen (Accounts bothOpened) food"
    using h by (simp add: foodTransaction_def foodPosting_def)
  from bookAmount_books_every_posting [OF h] o show ?thesis
    by (simp add: a m) (simp add: ex_defs crPos_def drPos_def)
qed

text \<open>The example as the claim words it: only \<open>Assets:Cash\<close> was opened. The debit account
  \<open>Expenses:Food\<close> is not open, the booking returns the error and books nothing.\<close>

theorem bookAmount_debit_not_opened_counterexample:
  "snd (bookAmount cashOpened foodTransaction) = Some (DebitNotOpen foodTransaction food) \<and>
   get_decimal (Amounts (fst (bookAmount cashOpened foodTransaction))) \<lparr>Account = cash, Commodity = USD\<rparr> \<noteq> - 10 \<and>
   get_decimal (Amounts (fst (bookAmount cashOpened foodTransaction))) \<lparr>Account = food, Commodity = USD\<rparr> \<noteq> 10"
  by (simp add: bookAmount_def ex_defs New_def Open_def IsOpen_def get_bool_def get_decimal_def)

text \<open>
  Claim C2. \<open>bookAmount\<close> returns an error exactly when some posting has a credit or a
  debit account that is neither recorded as open nor of type Equity: an account outside
  the open set fails the booking, except that an Equity account never does, opened or not.
\<close>

theorem bookAmount_fails_iff_not_open:
  "(snd (bookAmount b t) \<noteq> None) =
   (\<exists>p\<in>set (Postings t).
      (\<not> get_bool (Accounts b) (Credit p) \<and> Type (Credit p) \<noteq> EQUITY) \<or>
      (\<not> get_bool (Accounts b) (Debit p) \<and> Type (Debit p) \<noteq> EQUITY))"
  unfolding bookAmount_def bookAmount_loop_err by (auto simp add: IsOpen_def)

theorem bookAmount_fails_iff_not_open_witness:
  "snd (bookAmount cashOpened foodTransaction) \<noteq> None \<and>
   snd (bookAmount cashOpened equityTransaction) = None \<and>
   \<not> get_bool (Accounts cashOpened) equityOpening"
  using bookAmount_fails_iff_not_open [of cashOpened foodTransaction]
    bookAmount_fails_iff_not_open [of cashOpened equityTransaction]
  by (simp add: ex_defs New_def Open_def get_bool_def)

section \<open>Equity accounts and closing\<close>

text \<open>
  Claim C10. For an Equity account that is not recorded as open, \<open>IsOpen\<close> answers true,
  and \<open>Close\<close> returns the "already closed" error and leaves the set as it was.
\<close>

theorem equity_is_open_but_close_fails:
  "Type a = EQUITY \<Longrightarrow> \<not> get_bool oa a \<Longrightarrow>
     IsOpen oa a \<and> Close oa a = (oa, Some (AlreadyClosed a))"
  by (simp add: IsOpen_def Close_def)

theorem equity_is_open_but_close_fails_witness:
  "Type equityOpening = EQUITY \<and> \<not> get_bool [] equityOpening \<and>
     IsOpen [] equityOpening \<and> Close [] equityOpening = ([], Some (AlreadyClosed equityOpening))"
proof -
  have t: "Type equityOpening = EQUITY" by (simp add: equityOpening_def)
  have n: "\<not> get_bool [] equityOpening" by (simp add: get_bool_def)
  from equity_is_open_but_close_fails [OF t n] t n show ?thesis by simp
qed

section \<open>Maps as association lists\<close>

lemma update_fresh: "k \<notin> fst ` set al \<Longrightarrow> AList.update k v al = al @ [(k, v)]"
  by (induction al) auto

lemma fold_update_fresh:
  "distinct (map fst xs) \<Longrightarrow> fst ` set acc \<inter> fst ` set xs = {} \<Longrightarrow>
   fold (\<lambda>(k, v) m. AList.update k v m) xs acc = acc @ xs"
proof (induction xs arbitrary: acc)
  case Nil
  then show ?case by simp
next
  case (Cons x xs)
  obtain k v where x: "x = (k, v)" by (cases x)
  have fresh: "k \<notin> fst ` set acc" using Cons.prems(2) x by auto
  have d: "distinct (map fst xs)" using Cons.prems(1) by simp
  have disj: "fst ` set (acc @ [(k, v)]) \<inter> fst ` set xs = {}"
    using Cons.prems x by auto
  show ?case
    using Cons.IH [OF d disj] by (simp add: x update_fresh [OF fresh])
qed

lemma Amounts_Clone_id: "distinct (map fst am) \<Longrightarrow> Amounts_Clone am = am"
  using fold_update_fresh [of am "[]"] by (simp add: Amounts_Clone_def)

lemma get_decimal_notin: "k \<notin> fst ` set m \<Longrightarrow> get_decimal m k = 0"
  by (simp add: get_decimal_def map_of_eq_None_iff [THEN iffD2])

lemma get_decimal_Cons: "get_decimal ((k, v) # m) k' = (if k' = k then v else get_decimal m k')"
  by (simp add: get_decimal_def)

lemma fold_minus_get:
  "distinct (map fst bo) \<Longrightarrow>
   get_decimal (fold (\<lambda>(pos, va) m. AList.update pos (get_decimal m pos - va) m) bo b) k =
     get_decimal b k - get_decimal bo k"
proof (induction bo arbitrary: b)
  case Nil
  then show ?case by (simp add: get_decimal_def)
next
  case (Cons x bo)
  obtain pos va where x: "x = (pos, va)" by (cases x)
  have d: "distinct (map fst bo)" and fresh: "pos \<notin> fst ` set bo"
    using Cons.prems x by auto
  show ?case
    using Cons.IH [OF d] get_decimal_notin [OF fresh]
    by (simp add: x get_decimal_update get_decimal_Cons)
qed

lemma fold_minus_keys:
  "fst ` set (fold (\<lambda>(pos, va) m. AList.update pos (get_decimal m pos - va) m) bo b) =
     fst ` set b \<union> fst ` set bo"
proof (induction bo arbitrary: b)
  case Nil
  then show ?case by simp
next
  case (Cons x bo)
  obtain pos va where x: "x = (pos, va)" by (cases x)
  show ?case
    by (simp add: x Cons.IH dom_update)
qed

lemma map_of_get_decimal:
  "map_of m k = (if k \<in> fst ` set m then Some (get_decimal m k) else None)"
proof (cases "map_of m k")
  case None
  then show ?thesis by (simp add: map_of_eq_None_iff)
next
  case (Some v)
  then have "k \<in> fst ` set m" by (metis map_of_eq_None_iff option.distinct(1))
  then show ?thesis using Some by (simp add: get_decimal_def)
qed

section \<open>The example balances\<close>

lemma spentCash_eq:
  "spentCash = bothOpened\<lparr>Amounts := [(\<lparr>Account = cash, Commodity = USD\<rparr>, - 10), (\<lparr>Account = food, Commodity = USD\<rparr>, 10)]\<rparr>"
  by (simp add: spentCash_def bookAmount_def ex_defs New_def Open_def IsOpen_def get_bool_def
      get_decimal_def bookPosting_def crPos_def drPos_def Let_def)

lemma spentCash_eq':
  "spentCash = bothOpened\<lparr>Amounts := [(cashUSD, - 10), (foodUSD, 10)]\<rparr>"
  by (simp add: spentCash_eq cashUSD_def foodUSD_def)

lemma neqs: "cashUSD \<noteq> foodUSD" "foodUSD \<noteq> cashUSD"
  by (simp_all add: cashUSD_def foodUSD_def cash_def food_def)

lemma spentTwice_eq:
  "spentTwice = bothOpened\<lparr>Amounts := [(cashUSD, - 20), (foodUSD, 20)]\<rparr>"
  by (simp add: spentTwice_def spentCash_eq bookAmount_def ex_defs New_def Open_def IsOpen_def get_bool_def
      get_decimal_def bookPosting_def crPos_def drPos_def Let_def cashUSD_def foodUSD_def)

lemma bothOpened_fields: "Amounts bothOpened = []" "Values bothOpened = []"
  by (simp_all add: bothOpened_def cashOpened_def New_def)

section \<open>Closing an account\<close>

lemma hasNonzeroPosition_iff:
  "distinct (map fst amts) \<Longrightarrow>
   hasNonzeroPosition amts a = (\<exists>c. get_decimal amts \<lparr>Account = a, Commodity = c\<rparr> \<noteq> 0)"
proof (induction amts)
  case Nil
  then show ?case by (simp add: hasNonzeroPosition_def get_decimal_def)
next
  case (Cons x amts)
  obtain pos va where x: "x = (pos, va)" by (cases x)
  have d: "distinct (map fst amts)" and fresh: "pos \<notin> fst ` set amts"
    using Cons.prems x by auto
  have IH: "list_ex (\<lambda>(pos, amount). Account pos = a \<and> amount \<noteq> 0) amts =
      (\<exists>c. get_decimal amts \<lparr>Account = a, Commodity = c\<rparr> \<noteq> 0)"
    using Cons.IH [OF d] by (simp add: hasNonzeroPosition_def)
  show ?case
  proof (cases "Account pos = a")
    case True
    then have pos: "pos = \<lparr>Account = a, Commodity = Commodity pos\<rparr>" by simp
    have z: "get_decimal amts \<lparr>Account = a, Commodity = Commodity pos\<rparr> = 0"
      using get_decimal_notin [OF fresh] pos by simp
    show ?thesis
      unfolding hasNonzeroPosition_def x using True IH z
      apply (simp add: get_decimal_Cons)
      by (metis pos)
  next
    case False
    then have "\<lparr>Account = a, Commodity = c\<rparr> \<noteq> pos" for c by auto
    then show ?thesis
      unfolding hasNonzeroPosition_def x using False IH by (simp add: get_decimal_Cons)
  qed
qed

text \<open>
  Claim C3, as the code has it. Closing an account whose balance is nonzero in some
  commodity fails with the account-state error and changes nothing. When all its balances
  are zero and the account is recorded as open, the close succeeds and removes this account,
  and no other, from the open set, leaving the amounts alone. When all its balances are
  zero and the account is not recorded as open, \<open>Accounts.Close\<close> fails with "already
  closed".
\<close>

theorem closeAccount_zero_balance_and_open:
  assumes "distinct (map fst (Amounts b))"
  shows "((\<exists>c. get_decimal (Amounts b) \<lparr>Account = a, Commodity = c\<rparr> \<noteq> 0) \<longrightarrow>
            closeAccount b a = (b, Some (AccountStateError a))) \<and>
         ((\<forall>c. get_decimal (Amounts b) \<lparr>Account = a, Commodity = c\<rparr> = 0) \<and> get_bool (Accounts b) a \<longrightarrow>
            snd (closeAccount b a) = None \<and>
            \<not> get_bool (Accounts (fst (closeAccount b a))) a \<and>
            (\<forall>a'. a' \<noteq> a \<longrightarrow> get_bool (Accounts (fst (closeAccount b a))) a' = get_bool (Accounts b) a') \<and>
            Amounts (fst (closeAccount b a)) = Amounts b) \<and>
         ((\<forall>c. get_decimal (Amounts b) \<lparr>Account = a, Commodity = c\<rparr> = 0) \<and> \<not> get_bool (Accounts b) a \<longrightarrow>
            closeAccount b a = (b, Some (AlreadyClosed a)))"
  using hasNonzeroPosition_iff [OF assms, of a]
  by (auto simp add: closeAccount_def Close_def get_bool_delete)


theorem closeAccount_zero_balance_and_open_witness:
  "distinct (map fst (Amounts spentCash)) \<and>
   closeAccount spentCash cash = (spentCash, Some (AccountStateError cash)) \<and>
   get_bool (Accounts cashOpened) cash \<and>
   snd (closeAccount cashOpened cash) = None \<and>
   \<not> get_bool (Accounts (fst (closeAccount cashOpened cash))) cash"
proof -
  have d: "distinct (map fst (Amounts spentCash))"
    by (simp add: spentCash_eq' neqs)
  have nz: "\<exists>c. get_decimal (Amounts spentCash) \<lparr>Account = cash, Commodity = c\<rparr> \<noteq> 0"
    by (rule exI [of _ USD]) (simp add: spentCash_eq get_decimal_def)
  have d0: "distinct (map fst (Amounts cashOpened))"
    by (simp add: cashOpened_def New_def)
  have z: "\<forall>c. get_decimal (Amounts cashOpened) \<lparr>Account = cash, Commodity = c\<rparr> = 0"
    by (simp add: cashOpened_def New_def get_decimal_def)
  have o: "get_bool (Accounts cashOpened) cash"
    by (simp add: cashOpened_def New_def Open_def get_bool_def)
  from closeAccount_zero_balance_and_open [OF d, of cash]
    closeAccount_zero_balance_and_open [OF d0, of cash] d nz z o
  show ?thesis by simp
qed

text \<open>All balances of \<open>Assets:Cash\<close> are zero in a new balance, and closing it fails all the
  same: the account was never opened.\<close>

theorem closeAccount_never_opened_counterexample:
  "\<not> hasNonzeroPosition (Amounts (New None)) cash \<and>
   snd (closeAccount (New None) cash) = Some (AlreadyClosed cash)"
  by (simp add: hasNonzeroPosition_def closeAccount_def Close_def New_def get_bool_def)

section \<open>Copy and Minus\<close>

lemma Balance_Copy_wf:
  "distinct (map fst (Amounts b)) \<Longrightarrow> distinct (map fst (Values b)) \<Longrightarrow>
   Amounts (Balance_Copy b) = Amounts b \<and> Values (Balance_Copy b) = Values b"
  using fold_update_fresh [of "Amounts b" "[]"] fold_update_fresh [of "Values b" "[]"]
  by (simp add: Balance_Copy_def Let_def New_def)

text \<open>
  Claim C8. \<open>Copy\<close> allocates a new balance with the amounts and values of the original
  and leaves the original in place. Subtracting the original from the copy sets every key
  of the copy, which are the keys of the original, to zero, adds no key, and leaves the
  original unchanged.
\<close>

theorem Copy_Minus_is_zero:
  assumes "b < length h"
    and "distinct (map fst (Amounts (h ! b)))"
    and "distinct (map fst (Values (h ! b)))"
  shows "(case Copy h b of
            None \<Rightarrow> False
          | Some (h1, nb) \<Rightarrow>
              nb \<noteq> b \<and> h1 ! b = h ! b \<and>
              map_of (Amounts (h1 ! nb)) = map_of (Amounts (h ! b)) \<and>
              map_of (Values (h1 ! nb)) = map_of (Values (h ! b)) \<and>
              (case Minus h1 nb b of
                 None \<Rightarrow> False
               | Some h2 \<Rightarrow>
                   h2 ! b = h ! b \<and>
                   (\<forall>k. map_of (Amounts (h2 ! nb)) k =
                          (if k \<in> fst ` set (Amounts (h ! b)) then Some 0 else None)) \<and>
                   (\<forall>k. map_of (Values (h2 ! nb)) k =
                          (if k \<in> fst ` set (Values (h ! b)) then Some 0 else None))))"
proof -
  note c = Balance_Copy_wf [OF assms(2,3)]
  have z: "get_decimal (Minus_range m m) k = 0" if "distinct (map fst m)" for m k
    using fold_minus_get [OF that, of m k] by (simp add: Minus_range_def)
  have ks: "fst ` set (Minus_range m m) = fst ` set m" for m
    by (simp add: Minus_range_def fold_minus_keys)
  have zm: "map_of (Minus_range m m) k = (if k \<in> fst ` set m then Some 0 else None)"
    if "distinct (map fst m)" for m k
    using z [OF that] ks [of m] by (simp add: map_of_get_decimal [of "Minus_range m m"])
  show ?thesis
    using assms(1) c zm [OF assms(2)] zm [OF assms(3)]
    by (simp add: Copy_def Minus_def Let_def nth_append)
qed


theorem Copy_Minus_is_zero_witness:
  "(case Copy [spentCash] 0 of
      None \<Rightarrow> False
    | Some (h1, nb) \<Rightarrow>
        nb = 1 \<and> h1 ! 0 = spentCash \<and>
        (case Minus h1 nb 0 of
           None \<Rightarrow> False
         | Some h2 \<Rightarrow>
             h2 ! 0 = spentCash \<and>
             map_of (Amounts (h2 ! nb)) cashUSD = Some 0 \<and>
             map_of (Amounts (h2 ! nb)) foodUSD = Some 0 \<and>
             map_of (Amounts spentCash) cashUSD = Some (- 10)))"
proof -
  have l: "0 < length [spentCash]" by simp
  have d: "distinct (map fst (Amounts ([spentCash] ! 0)))"
    by (simp add: spentCash_eq' neqs)
  have v: "distinct (map fst (Values ([spentCash] ! 0)))"
    by (simp add: spentCash_eq' bothOpened_fields)
  have a: "map_of (Amounts spentCash) cashUSD = Some (- 10)"
    by (simp add: spentCash_eq')
  have ks: "cashUSD \<in> fst ` set (Amounts spentCash)" "foodUSD \<in> fst ` set (Amounts spentCash)"
    by (simp_all add: spentCash_eq')
  from Copy_Minus_is_zero [OF l d v] a ks show ?thesis
    by (simp add: Copy_def split: option.splits)
qed

section \<open>Diffs and the differ\<close>

lemma Minus_eq:
  "b < length h \<Longrightarrow> bo < length h \<Longrightarrow> b \<noteq> bo \<Longrightarrow>
   Minus h b bo = Some (h[b := (h ! b)\<lparr>Amounts := Minus_range (Amounts (h ! b)) (Amounts (h ! bo)),
                                     Values := Minus_range (Values (h ! b)) (Values (h ! bo))\<rparr>])"
  by (simp add: Minus_def Let_def)

lemma Diffs_loop_spec:
  assumes "i < length bals" and "distinct bals" and "\<forall>p\<in>set bals. p < length h"
    and "\<forall>m<i. wf_Balance (h ! (bals ! m))"
  shows "\<exists>h'. Diffs_loop h bals i = Some h' \<and> length h' = length h \<and>
           (\<forall>p. p \<notin> (\<lambda>m. bals ! m) ` {1..i} \<longrightarrow> h' ! p = h ! p) \<and>
           (\<forall>m\<in>{1..i}. \<forall>k.
               get_decimal (Amounts (h' ! (bals ! m))) k =
                 get_decimal (Amounts (h ! (bals ! m))) k - get_decimal (Amounts (h ! (bals ! (m - 1)))) k \<and>
               get_decimal (Values (h' ! (bals ! m))) k =
                 get_decimal (Values (h ! (bals ! m))) k - get_decimal (Values (h ! (bals ! (m - 1)))) k)"
  using assms
proof (induction i arbitrary: h)
  case 0
  then show ?case by simp
next
  case (Suc j)
  define b where "b = bals ! Suc j"
  define bo where "bo = bals ! j"
  define X where "X = (h ! b)\<lparr>Amounts := Minus_range (Amounts (h ! b)) (Amounts (h ! bo)),
                             Values := Minus_range (Values (h ! b)) (Values (h ! bo))\<rparr>"
  define h1 where "h1 = h[b := X]"
  have jl: "j < length bals" and sl: "Suc j < length bals" using Suc.prems(1) by auto
  have bl: "b < length h" and bol: "bo < length h"
    using Suc.prems(3) jl sl by (auto simp add: b_def bo_def)
  have neq: "bals ! m \<noteq> b" if "m \<le> j" for m
    using that Suc.prems(2) sl by (simp add: b_def nth_eq_iff_index_eq)
  have bneq: "b \<noteq> bo" using neq [of j] by (simp add: bo_def)
  have M: "Minus h b bo = Some h1"
    using Minus_eq [OF bl bol bneq] by (simp add: h1_def X_def)
  have same: "h1 ! (bals ! m) = h ! (bals ! m)" if "m \<le> j" for m
    using neq [OF that] by (simp add: h1_def)
  have v1: "\<forall>p\<in>set bals. p < length h1" using Suc.prems(3) by (simp add: h1_def)
  have w1: "\<forall>m<j. wf_Balance (h1 ! (bals ! m))"
    using Suc.prems(4) same by simp
  from Suc.IH [OF jl Suc.prems(2) v1 w1] obtain h' where
    L: "Diffs_loop h1 bals j = Some h'" and len: "length h' = length h1" and
    frame: "\<forall>p. p \<notin> (\<lambda>m. bals ! m) ` {1..j} \<longrightarrow> h' ! p = h1 ! p" and
    diff: "\<forall>m\<in>{1..j}. \<forall>k.
               get_decimal (Amounts (h' ! (bals ! m))) k =
                 get_decimal (Amounts (h1 ! (bals ! m))) k - get_decimal (Amounts (h1 ! (bals ! (m - 1)))) k \<and>
               get_decimal (Values (h' ! (bals ! m))) k =
                 get_decimal (Values (h1 ! (bals ! m))) k - get_decimal (Values (h1 ! (bals ! (m - 1)))) k"
    by blast
  have run: "Diffs_loop h bals (Suc j) = Some h'"
    using M L by (simp add: b_def bo_def)
  have bnot: "b \<notin> (\<lambda>m. bals ! m) ` {1..j}"
  proof
    assume "b \<in> (\<lambda>m. bals ! m) ` {1..j}"
    then obtain m where "m \<le> j" and "bals ! m = b" by auto
    then show False using neq by blast
  qed
  have hb: "h' ! b = X" using frame bnot bl by (simp add: h1_def)
  have wbo: "wf_Balance (h ! bo)" using Suc.prems(4) by (simp add: bo_def)
  have top: "get_decimal (Amounts (h' ! b)) k = get_decimal (Amounts (h ! b)) k - get_decimal (Amounts (h ! bo)) k \<and>
             get_decimal (Values (h' ! b)) k = get_decimal (Values (h ! b)) k - get_decimal (Values (h ! bo)) k" for k
    using wbo by (simp add: hb X_def Minus_range_def fold_minus_get wf_Balance_def)
  have F: "\<forall>p. p \<notin> (\<lambda>m. bals ! m) ` {1..Suc j} \<longrightarrow> h' ! p = h ! p"
  proof (intro allI impI)
    fix p assume p: "p \<notin> (\<lambda>m. bals ! m) ` {1..Suc j}"
    then have "p \<notin> (\<lambda>m. bals ! m) ` {1..j}" and "p \<noteq> b" by (auto simp add: b_def)
    then show "h' ! p = h ! p" using frame by (simp add: h1_def)
  qed
  have D: "\<forall>m\<in>{1..Suc j}. \<forall>k.
               get_decimal (Amounts (h' ! (bals ! m))) k =
                 get_decimal (Amounts (h ! (bals ! m))) k - get_decimal (Amounts (h ! (bals ! (m - 1)))) k \<and>
               get_decimal (Values (h' ! (bals ! m))) k =
                 get_decimal (Values (h ! (bals ! m))) k - get_decimal (Values (h ! (bals ! (m - 1)))) k"
  proof (intro ballI allI)
    fix m k assume m: "m \<in> {1..Suc j}"
    show "get_decimal (Amounts (h' ! (bals ! m))) k =
                 get_decimal (Amounts (h ! (bals ! m))) k - get_decimal (Amounts (h ! (bals ! (m - 1)))) k \<and>
               get_decimal (Values (h' ! (bals ! m))) k =
                 get_decimal (Values (h ! (bals ! m))) k - get_decimal (Values (h ! (bals ! (m - 1)))) k"
    proof (cases "m = Suc j")
      case True
      then show ?thesis using top [of k] by (simp add: b_def bo_def)
    next
      case False
      then have mj: "m \<in> {1..j}" using m by auto
      then have "m \<le> j" and "m - 1 \<le> j" by auto
      then show ?thesis using diff mj same by simp
    qed
  qed
  show ?case using run len F D by (simp add: h1_def)
qed


lemma Differ_loop_length: "length (Differ_loop prev ds) = length ds"
  by (induction ds arbitrary: prev) (simp_all add: Let_def)

lemma Differ_loop_nth:
  "i < length ds \<Longrightarrow>
   Differ_loop prev ds ! i =
     (ds ! i)\<lparr>DValue := Amounts_Minus (Amounts_Clone (DValue (ds ! i)))
                            (if i = 0 then prev else DValue (ds ! (i - 1)))\<rparr>"
proof (induction ds arbitrary: prev i)
  case Nil
  then show ?case by simp
next
  case (Cons d ds)
  show ?case
  proof (cases i)
    case 0
    then show ?thesis by (simp add: Let_def)
  next
    case (Suc n)
    then have n: "n < length ds" using Cons.prems by simp
    show ?thesis
      using Cons.IH [OF n, of "DValue d"] Suc by (cases n) (simp_all add: Let_def)
  qed
qed

lemma Amounts_Minus_get:
  "distinct (map fst am) \<Longrightarrow> distinct (map fst other) \<Longrightarrow>
   get_decimal (Amounts_Minus (Amounts_Clone am) other) k = get_decimal am k - get_decimal other k"
  by (simp add: Amounts_Clone_id Amounts_Minus_def fold_minus_get)

text \<open>
  Claim C4, as the code has it. For a nonempty slice of pairwise different balances,
  \<open>Diffs\<close> returns the slice without its first element, one element shorter, and each
  balance returned holds its former amounts and values minus those of its predecessor in
  the input. \<open>Differ.Process2\<close> in diff mode pushes one day for every day it receives:
  the first with its values unchanged, that is minus the empty map, and every later day
  with its values minus those of the day before; nothing but the values of a day changes.
\<close>

theorem Diffs_drops_first_Differ_keeps_it:
  assumes "bals \<noteq> []" and "distinct bals"
    and "\<forall>p\<in>set bals. p < length h \<and> wf_Balance (h ! p)"
    and "\<forall>d\<in>set days. distinct (map fst (DValue d))"
  shows "(case Diffs h bals of
            None \<Rightarrow> False
          | Some (h', res) \<Rightarrow>
              length res = length bals - 1 \<and> res = tl bals \<and>
              (\<forall>j<length res. \<forall>k.
                 get_decimal (Amounts (h' ! (res ! j))) k =
                   get_decimal (Amounts (h ! (bals ! Suc j))) k - get_decimal (Amounts (h ! (bals ! j))) k \<and>
                 get_decimal (Values (h' ! (res ! j))) k =
                   get_decimal (Values (h ! (bals ! Suc j))) k - get_decimal (Values (h ! (bals ! j))) k)) \<and>
         length (Differ_Process2 True days) = length days \<and>
         (\<forall>i<length days. \<forall>k.
            (Differ_Process2 True days ! i)\<lparr>DValue := DValue (days ! i)\<rparr> = days ! i \<and>
            get_decimal (DValue (Differ_Process2 True days ! i)) k =
              get_decimal (DValue (days ! i)) k -
                (if i = 0 then 0 else get_decimal (DValue (days ! (i - 1))) k))"
proof -
  have i: "length bals - 1 < length bals" using assms(1) by (cases bals) simp_all
  have v: "\<forall>p\<in>set bals. p < length h" using assms(3) by simp
  have w: "\<forall>m<length bals - 1. wf_Balance (h ! (bals ! m))" using assms(3) by simp
  from Diffs_loop_spec [OF i assms(2) v w] obtain h' where
    L: "Diffs_loop h bals (length bals - 1) = Some h'" and
    D: "\<forall>m\<in>{1..length bals - 1}. \<forall>k.
               get_decimal (Amounts (h' ! (bals ! m))) k =
                 get_decimal (Amounts (h ! (bals ! m))) k - get_decimal (Amounts (h ! (bals ! (m - 1)))) k \<and>
               get_decimal (Values (h' ! (bals ! m))) k =
                 get_decimal (Values (h ! (bals ! m))) k - get_decimal (Values (h ! (bals ! (m - 1)))) k"
    by blast
  have R: "Diffs h bals = Some (h', tl bals)"
    using L assms(1) by (simp add: Diffs_def drop_Suc)
  have P: "get_decimal (Amounts (h' ! (tl bals ! j))) k =
             get_decimal (Amounts (h ! (bals ! Suc j))) k - get_decimal (Amounts (h ! (bals ! j))) k \<and>
           get_decimal (Values (h' ! (tl bals ! j))) k =
             get_decimal (Values (h ! (bals ! Suc j))) k - get_decimal (Values (h ! (bals ! j))) k"
    if "j < length (tl bals)" for j k
  proof -
    have "Suc j \<in> {1..length bals - 1}" using that by simp
    then show ?thesis using D that by (simp add: nth_tl)
  qed
  have Q: "(Differ_Process2 True days ! i)\<lparr>DValue := DValue (days ! i)\<rparr> = days ! i \<and>
           get_decimal (DValue (Differ_Process2 True days ! i)) k =
              get_decimal (DValue (days ! i)) k -
                (if i = 0 then 0 else get_decimal (DValue (days ! (i - 1))) k)"
    if "i < length days" for i k
  proof -
    have d1: "distinct (map fst (DValue (days ! i)))" using assms(4) that by simp
    have d2: "distinct (map fst (if i = 0 then [] else DValue (days ! (i - 1))))"
      using assms(4) that by simp
    show ?thesis
      using Amounts_Minus_get [OF d1 d2, of k]
      by (simp add: Differ_Process2_def Differ_loop_nth [OF that] get_decimal_def)
  qed
  show ?thesis
    using R P Q by (simp add: Differ_Process2_def Differ_loop_length)
qed


theorem Diffs_drops_first_Differ_keeps_it_witness:
  "(case Diffs [spentCash, spentTwice] [0, 1] of
      None \<Rightarrow> False
    | Some (h', res) \<Rightarrow>
        res = [1] \<and>
        get_decimal (Amounts (h' ! 1)) cashUSD = - 10 \<and>
        get_decimal (Amounts (h' ! 1)) foodUSD = 10) \<and>
   length (Differ_Process2 True [firstDay, secondDay]) = 2 \<and>
   get_decimal (DValue (Differ_Process2 True [firstDay, secondDay] ! 0)) cashUSD = 5 \<and>
   get_decimal (DValue (Differ_Process2 True [firstDay, secondDay] ! 1)) cashUSD = 3"
proof -
  have n: "[0, 1::nat] \<noteq> []" and d: "distinct [0, 1::nat]" by simp_all
  have w: "\<forall>p\<in>set [0, 1]. p < length [spentCash, spentTwice] \<and> wf_Balance ([spentCash, spentTwice] ! p)"
    by (simp add: wf_Balance_def spentCash_eq' spentTwice_eq neqs bothOpened_fields)
  have dd: "\<forall>d\<in>set [firstDay, secondDay]. distinct (map fst (DValue d))"
    by (simp add: firstDay_def secondDay_def)
  have g: "get_decimal (Amounts spentCash) cashUSD = - 10" "get_decimal (Amounts spentCash) foodUSD = 10"
      "get_decimal (Amounts spentTwice) cashUSD = - 20" "get_decimal (Amounts spentTwice) foodUSD = 20"
      "get_decimal (DValue firstDay) cashUSD = 5" "get_decimal (DValue secondDay) cashUSD = 8"
    by (simp_all add: spentCash_eq' spentTwice_eq firstDay_def secondDay_def get_decimal_def neqs)
  from Diffs_drops_first_Differ_keeps_it [OF n d w dd] g show ?thesis
    by (auto split: option.splits)
qed

text \<open>The balances of the slice have to be different objects. With the first balance
  listed again at the end, the loop subtracts from it before it serves as the predecessor
  of the second, whose result is then not the difference of the two inputs, \<open>-10\<close>.\<close>

lemma Diffs_on_aliased_slice:
  "(case Diffs [spentCash, spentTwice] [0, 1, 0] of
      None \<Rightarrow> False
    | Some (h', res) \<Rightarrow>
        res = [1, 0] \<and>
        get_decimal (Amounts (h' ! 0)) cashUSD = 10 \<and>
        get_decimal (Amounts (h' ! 1)) cashUSD = - 30)"
  by (simp add: Diffs_def Minus_def Minus_range_def Let_def spentCash_eq' spentTwice_eq
      get_decimal_def neqs bothOpened_fields eval_nat_numeral)

text \<open>One snapshot in, one snapshot out: the differ does not drop the first.\<close>

theorem Differ_keeps_first_counterexample:
  "Differ_Process2 True [firstDay] = [firstDay] \<and>
   length (Differ_Process2 True [firstDay]) \<noteq> length [firstDay] - 1"
  by (simp add: Differ_Process2_def Amounts_Clone_def Amounts_Minus_def firstDay_def Let_def)


section \<open>Printing a transaction\<close>

lemma wrote_Nil: "wrote p [] = p"
  by (simp add: wrote_def)

lemma wrote_wrote: "wrote (wrote p a) b = wrote p (a @ b)"
  by (simp add: wrote_def)

lemma wrote_fields:
  "room (writer (wrote p a)) = room (writer p)" "padding (wrote p a) = padding p"
  "count (wrote p a) = count p + length a" "out (writer (wrote p a)) = out (writer p) @ a"
  by (simp_all add: wrote_def)

lemma Write_unlimited: "room (writer p) = None \<Longrightarrow> Write p bs = (wrote p bs, length bs, None)"
  by (simp add: Write_def Writer_Write_def wrote_def)

lemma postingText_padding: "padding p' = padding p \<Longrightarrow> postingText F p' t = postingText F p t"
  by (simp add: postingText_def rightPad_def)

lemma printTransaction_range_unlimited:
  "room (writer p) = None \<Longrightarrow> start \<le> count p \<Longrightarrow>
   printTransaction_range F start p i ps =
     (let T = concat (map (\<lambda>po. postingText F p po @ newline) (nths ps {j. odd (i + j)}))
      in (wrote p T, count p + length T - start, None))"
proof (induction ps arbitrary: p i)
  case Nil
  then show ?case by (simp add: wrote_Nil)
next
  case (Cons po rest)
  show ?case
  proof (cases "odd i")
    case False
    then have e: "i mod 2 = 0" by presburger
    show ?thesis
      using Cons.IH [OF Cons.prems, of "i + 1"] False e
      by (simp add: nths_Cons Let_def)
  next
    case True
    then have e: "i mod 2 \<noteq> 0" by presburger
    define p2 where "p2 = wrote p (postingText F p po @ newline)"
    have r: "room (writer p2) = None" and c: "start \<le> count p2" and pad: "padding p2 = padding p"
      using Cons.prems by (simp_all add: p2_def wrote_fields)
    have w: "printPosting F p po = (wrote p (postingText F p po), length (postingText F p po), None)"
      using Cons.prems(1) by (simp add: printPosting_def Write_unlimited)
    have w2: "Write (wrote p (postingText F p po)) newline = (p2, length newline, None)"
      using Cons.prems(1) by (simp add: Write_unlimited wrote_fields wrote_wrote p2_def)
    have t: "postingText F p2 = postingText F p"
      using postingText_padding [OF pad] by (rule ext)
    show ?thesis
      using Cons.IH [OF r c, of "i + 1"] True e w w2
      by (simp add: nths_Cons Let_def t) (simp add: p2_def wrote_wrote wrote_fields)
  qed
qed

text \<open>
  Claim C9. On a writer that accepts every write, \<open>printTransaction\<close> returns no error
  and appends the header line, preceded by the targets line when there are targets, and
  then one line for each posting at an odd index of the posting list, in order, and for no
  other posting; it returns the number of bytes it appended. A transaction with a single
  posting is printed as its header line alone.
\<close>

theorem printTransaction_prints_odd_postings:
  assumes "room (writer p) = None"
  shows "(case printTransaction F p t of
            (p', n, err) \<Rightarrow>
              err = None \<and>
              out (writer p') =
                out (writer p) @
                (case MTargets t of None \<Rightarrow> [] | Some ts \<Rightarrow> targetsText ts) @ headerText F t @ newline @
                concat (map (\<lambda>po. postingText F p po @ newline) (nths (MPostings t) {i. odd i})) \<and>
              n = length (out (writer p')) - length (out (writer p)) \<and>
              (length (MPostings t) = 1 \<longrightarrow>
                 out (writer p') =
                   out (writer p) @
                   (case MTargets t of None \<Rightarrow> [] | Some ts \<Rightarrow> targetsText ts) @ headerText F t @ newline))"
proof -
  define T0 where "T0 = (case MTargets t of None \<Rightarrow> [] | Some ts \<Rightarrow> targetsText ts)"
  define T where "T = T0 @ headerText F t @ newline @
     concat (map (\<lambda>po. postingText F p po @ newline) (nths (MPostings t) {i. odd i}))"
  define p0 where "p0 = wrote p T0"
  define p2 where "p2 = wrote p (T0 @ headerText F t @ newline)"
  have s0: "(case MTargets t of None \<Rightarrow> (p, 0, None) | Some ts \<Rightarrow> Write p (targetsText ts)) = (p0, length T0, None)"
    using assms by (simp add: p0_def T0_def Write_unlimited wrote_Nil split: option.splits)
  have s1: "Write p0 (headerText F t) = (wrote p (T0 @ headerText F t), length (headerText F t), None)"
    using assms by (simp add: p0_def Write_unlimited wrote_fields wrote_wrote)
  have s2: "Write (wrote p (T0 @ headerText F t)) newline = (p2, length newline, None)"
    using assms by (simp add: p2_def Write_unlimited wrote_fields wrote_wrote)
  have r: "room (writer p2) = None" and c: "count p \<le> count p2" and pad: "padding p2 = padding p"
    using assms by (simp_all add: p2_def wrote_fields)
  have t: "postingText F p2 = postingText F p"
    using postingText_padding [OF pad] by (rule ext)
  have main: "printTransaction F p t = (wrote p T, length T, None)"
    using printTransaction_range_unlimited [OF r c, of F 0 "MPostings t"]
    by (simp add: printTransaction_def Let_def s0 s1 s2 t T_def T0_def [symmetric])
       (simp add: p2_def wrote_wrote wrote_fields)
  have one: "T = T0 @ headerText F t @ newline" if "length (MPostings t) = 1"
  proof -
    from that obtain po where "MPostings t = [po]" by (cases "MPostings t") simp_all
    then show ?thesis by (simp add: T_def nths_Cons)
  qed
  show ?thesis
    using one by (simp add: main wrote_fields) (simp add: T_def T0_def)
qed

lemma printed_evals:
  "newline = [CHR 0x0A]" "headerText isoFormats lunch = ''2023-01-01 '' @ quote @ ''Lunch'' @ quote"
  "headerText isoFormats halfLunch = ''2023-01-01 '' @ quote @ ''Lunch'' @ quote"
  "postingText isoFormats buffer foodSide = ''Assets:Cash Expenses:Food      10.00 USD''"
  by (simp_all add: newline_def headerText_def isoFormats_def lunch_def halfLunch_def postingText_def
      rightPad_def leftPad_def buffer_def Printer_New_def foodSide_def cash_def food_def USD_def
      eval_nat_numeral)

theorem printTransaction_prints_odd_postings_witness:
  "(case printTransaction isoFormats buffer lunch of
      (p', n, err) \<Rightarrow>
        err = None \<and>
        out (writer p') = ''2023-01-01 '' @ quote @ ''Lunch'' @ quote @ newline @
          ''Assets:Cash Expenses:Food      10.00 USD'' @ newline) \<and>
   (case printTransaction isoFormats buffer halfLunch of
      (p', n, err) \<Rightarrow>
        err = None \<and> out (writer p') = ''2023-01-01 '' @ quote @ ''Lunch'' @ quote @ newline)"
proof -
  have r: "room (writer buffer) = None" by (simp add: buffer_def Printer_New_def)
  have o: "out (writer buffer) = []" by (simp add: buffer_def Printer_New_def)
  have m: "MTargets lunch = None" "MTargets halfLunch = None"
      "MPostings lunch = [cashSide, foodSide]" "MPostings halfLunch = [cashSide]"
    by (simp_all add: lunch_def halfLunch_def)
  from printTransaction_prints_odd_postings [OF r, where F = isoFormats and t = lunch]
    printTransaction_prints_odd_postings [OF r, where F = isoFormats and t = halfLunch]
  show ?thesis
    by (simp add: o m nths_Cons printed_evals(2,3,4) split: prod.splits)
qed


section \<open>Valuation adjustments of a day\<close>

lemma get_decimal_Book:
  "get_decimal (Book am cr db a c) k =
     get_decimal am k - (if k = \<lparr>Account = cr, Commodity = c\<rparr> then a else 0)
       + (if k = \<lparr>Account = db, Commodity = c\<rparr> then a else 0)"
  by (auto simp add: Book_def Let_def get_decimal_update)

lemma adjustments_cong:
  assumes "\<forall>(pos, va)\<in>set ps. isRevalued pr pos \<longrightarrow> get_decimal vals pos = get_decimal vals' pos"
  shows "adjustments V pr prices d vals ps = adjustments V pr prices d vals' ps"
  using assms
proof (induction ps)
  case Nil
  then show ?case by (simp add: adjustments_def)
next
  case (Cons x ps)
  obtain pos va where x: "x = (pos, va)" by (cases x)
  have "adjustments V pr prices d vals ps = adjustments V pr prices d vals' ps"
    using Cons by simp
  moreover have "isRevalued pr pos \<longrightarrow> get_decimal vals pos = get_decimal vals' pos"
    using Cons.prems x by simp
  ultimately show ?case
    by (auto simp add: adjustments_def x)
qed

lemma computeValuationTransactions_range_spec:
  assumes "distinct (map fst ps)"
    and "\<forall>a. Type (ValuationAccountFor pr a) \<noteq> ASSETS \<and> Type (ValuationAccountFor pr a) \<noteq> LIABILITIES"
    and "\<forall>(pos, va)\<in>set ps. isRevalued pr pos \<longrightarrow> V (VPrices day) (Commodity pos) va \<noteq> None"
  shows "\<exists>vals'. computeValuationTransactions_range V pr ps day =
           Return (day\<lparr>VTransactions := VTransactions day @
                         adjustments V pr (VPrices day) (VDate day) (VValues day) ps,
                       VValues := vals'\<rparr>) \<and>
         (\<forall>(pos, va)\<in>set ps. isRevalued pr pos \<longrightarrow>
             get_decimal vals' pos = the (V (VPrices day) (Commodity pos) va)) \<and>
         (\<forall>k. (Type (Account k) = ASSETS \<or> Type (Account k) = LIABILITIES) \<and> k \<notin> fst ` set ps \<longrightarrow>
             get_decimal vals' k = get_decimal (VValues day) k)"
  using assms
proof (induction ps arbitrary: day)
  case Nil
  show ?case
    by (rule exI [of _ "VValues day"]) (simp add: adjustments_def)
next
  case (Cons x ps)
  obtain pos va where x: "x = (pos, va)" by (cases x)
  have d: "distinct (map fst ps)" and fresh: "pos \<notin> fst ` set ps"
    using Cons.prems(1) x by auto
  show ?case
  proof (cases "isRevalued pr pos")
    case False
    have skip: "computeValuationTransactions_range V pr (x # ps) day =
                computeValuationTransactions_range V pr ps day"
      using False by (auto simp add: x isRevalued_def)
    have a: "adjustments V pr (VPrices day) (VDate day) (VValues day) (x # ps) =
             adjustments V pr (VPrices day) (VDate day) (VValues day) ps"
      using False by (simp add: adjustments_def x)
    have p: "\<forall>(pos, va)\<in>set ps. isRevalued pr pos \<longrightarrow> V (VPrices day) (Commodity pos) va \<noteq> None"
      using Cons.prems(3) by simp
    from Cons.IH [OF d Cons.prems(2) p] obtain vals' where
      R: "computeValuationTransactions_range V pr ps day =
           Return (day\<lparr>VTransactions := VTransactions day @
                         adjustments V pr (VPrices day) (VDate day) (VValues day) ps,
                       VValues := vals'\<rparr>)" and
      G: "\<forall>(pos, va)\<in>set ps. isRevalued pr pos \<longrightarrow>
             get_decimal vals' pos = the (V (VPrices day) (Commodity pos) va)" and
      Fr: "\<forall>k. (Type (Account k) = ASSETS \<or> Type (Account k) = LIABILITIES) \<and> k \<notin> fst ` set ps \<longrightarrow>
             get_decimal vals' k = get_decimal (VValues day) k"
      by blast
    show ?thesis
      unfolding skip a
      apply (rule exI [of _ vals'])
      using R G Fr False by (simp add: x)
  next
    case True
    then have ne: "Some (Commodity pos) \<noteq> PValuation pr"
      and al: "Type (Account pos) = ASSETS \<or> Type (Account pos) = LIABILITIES"
      by (simp_all add: isRevalued_def)
    from Cons.prems(3) True obtain val where val: "V (VPrices day) (Commodity pos) va = Some val"
      by (auto simp add: x)
    define credit where "credit = ValuationAccountFor pr (Account pos)"
    define diff where "diff = val - get_decimal (VValues day) pos"
    define day2 where "day2 = (if diff = 0 then day else
        day\<lparr>VTransactions := VTransactions day @ [adjustment pr (VDate day) pos diff],
            VValues := Book (VValues day) credit (Account pos) diff (Commodity pos)\<rparr>)"
    have step: "computeValuationTransactions_range V pr (x # ps) day =
                computeValuationTransactions_range V pr ps day2"
      using ne al val
      by (auto simp add: x Let_def day2_def diff_def credit_def)
    have same: "VPrices day2 = VPrices day" "VDate day2 = VDate day" "VDay day2 = VDay day"
      by (simp_all add: day2_def)
    have crne: "\<lparr>Account = credit, Commodity = c\<rparr> \<noteq> k"
      if "Type (Account k) = ASSETS \<or> Type (Account k) = LIABILITIES" for k c
      using that Cons.prems(2) by (auto simp add: credit_def)
    have pos_eq: "\<lparr>Account = Account pos, Commodity = Commodity pos\<rparr> = pos" by simp
    have v2: "get_decimal (VValues day2) k =
                (if k = pos then val else get_decimal (VValues day) k)"
      if "Type (Account k) = ASSETS \<or> Type (Account k) = LIABILITIES" for k
    proof -
      have c1: "k \<noteq> \<lparr>Account = credit, Commodity = Commodity pos\<rparr>"
        using crne [OF that, of "Commodity pos"] by simp
      have c2: "pos \<noteq> \<lparr>Account = credit, Commodity = Commodity pos\<rparr>"
        using crne [OF al, of "Commodity pos"] by simp
      show ?thesis
        using c1 c2 by (simp add: day2_def get_decimal_Book diff_def pos_eq)
    qed
    have v2rest: "\<forall>(q, va)\<in>set ps. isRevalued pr q \<longrightarrow>
        get_decimal (VValues day2) q = get_decimal (VValues day) q"
    proof (clarify)
      fix q vq assume q: "(q, vq) \<in> set ps" and r: "isRevalued pr q"
      have "q \<noteq> pos" using q fresh by force
      moreover have "Type (Account q) = ASSETS \<or> Type (Account q) = LIABILITIES"
        using r by (simp add: isRevalued_def)
      ultimately show "get_decimal (VValues day2) q = get_decimal (VValues day) q"
        using v2 by simp
    qed
    have p: "\<forall>(pos, va)\<in>set ps. isRevalued pr pos \<longrightarrow> V (VPrices day2) (Commodity pos) va \<noteq> None"
      using Cons.prems(3) by (simp add: same)
    from Cons.IH [OF d Cons.prems(2) p] obtain vals' where
      R: "computeValuationTransactions_range V pr ps day2 =
           Return (day2\<lparr>VTransactions := VTransactions day2 @
                         adjustments V pr (VPrices day2) (VDate day2) (VValues day2) ps,
                       VValues := vals'\<rparr>)" and
      G: "\<forall>(pos, va)\<in>set ps. isRevalued pr pos \<longrightarrow>
             get_decimal vals' pos = the (V (VPrices day2) (Commodity pos) va)" and
      Fr: "\<forall>k. (Type (Account k) = ASSETS \<or> Type (Account k) = LIABILITIES) \<and> k \<notin> fst ` set ps \<longrightarrow>
             get_decimal vals' k = get_decimal (VValues day2) k"
      by blast
    have a: "adjustments V pr (VPrices day) (VDate day) (VValues day2) ps =
             adjustments V pr (VPrices day) (VDate day) (VValues day) ps"
      by (rule adjustments_cong) (use v2rest in simp)
    have hd: "adjustments V pr (VPrices day) (VDate day) (VValues day) (x # ps) =
              (if diff = 0 then [] else [adjustment pr (VDate day) pos diff]) @
              adjustments V pr (VPrices day) (VDate day) (VValues day) ps"
      using True val
      by (auto simp add: adjustments_def adjustment_def NewPostingWithTargets_def x diff_def)
    have res: "day2\<lparr>VTransactions := VTransactions day2 @
                         adjustments V pr (VPrices day2) (VDate day2) (VValues day2) ps,
                       VValues := vals'\<rparr> =
               day\<lparr>VTransactions := VTransactions day @
                         adjustments V pr (VPrices day) (VDate day) (VValues day) (x # ps),
                       VValues := vals'\<rparr>"
      by (simp add: same a hd) (simp add: day2_def)
    have gpos: "get_decimal vals' pos = val"
      using Fr al fresh v2 [OF al] by simp
    have Fr': "\<forall>k. (Type (Account k) = ASSETS \<or> Type (Account k) = LIABILITIES) \<and> k \<notin> fst ` set (x # ps) \<longrightarrow>
             get_decimal vals' k = get_decimal (VValues day) k"
      using Fr v2 by (simp add: x)
    have G': "\<forall>(q, vq)\<in>set (x # ps). isRevalued pr q \<longrightarrow>
             get_decimal vals' q = the (V (VPrices day) (Commodity q) vq)"
      using G gpos val by (simp add: x same)
    show ?thesis
      unfolding step
      apply (rule exI [of _ vals'])
      using R [unfolded res] G' Fr' by simp
  qed
qed


lemma processValuationTransactions2_range_simulates:
  assumes "VDate day = DDate d" and "VValues day = DValue d" and "VPrices day = DNormalized d"
    and "VTransactions day = DTransactions d"
    and "computeValuationTransactions_range V pr ps day = Return day'"
  shows "processValuationTransactions2_range V pr ps d =
           (d\<lparr>DValue := VValues day', DTransactions := VTransactions day'\<rparr>, None)"
  using assms
proof (induction ps arbitrary: day d)
  case Nil
  then show ?case by simp
next
  case (Cons x ps)
  obtain pos va where x: "x = (pos, va)" by (cases x)
  show ?case
  proof (cases "Some (Commodity pos) = PValuation pr \<or>
                (Type (Account pos) \<noteq> ASSETS \<and> Type (Account pos) \<noteq> LIABILITIES)")
    case True
    then have "computeValuationTransactions_range V pr ps day = Return day'"
      using Cons.prems(5) by (auto simp add: x split: if_splits)
    from Cons.IH [OF Cons.prems(1-4) this] show ?thesis
      using True by (auto simp add: x split: if_splits)
  next
    case False
    then obtain val where val: "V (VPrices day) (Commodity pos) va = Some val"
      using Cons.prems(5) by (cases "V (VPrices day) (Commodity pos) va") (auto simp add: x)
    show ?thesis
    proof (cases "val - get_decimal (VValues day) pos = 0")
      case True
      then have "computeValuationTransactions_range V pr ps day = Return day'"
        using Cons.prems(5) False val by (auto simp add: x)
      from Cons.IH [OF Cons.prems(1-4) this] show ?thesis
        using True False val Cons.prems(2,3) by (auto simp add: x)
    next
      case nz: False
      define diff where "diff = val - get_decimal (VValues day) pos"
      define day2 where "day2 =
        day\<lparr>VTransactions := VTransactions day @ [adjustment pr (VDate day) pos diff],
            VValues := Book (VValues day) (ValuationAccountFor pr (Account pos)) (Account pos) diff (Commodity pos)\<rparr>"
      define d2 where "d2 =
        d\<lparr>DValue := Book (DValue d) (ValuationAccountFor pr (Account pos)) (Account pos) diff (Commodity pos),
          DTransactions := DTransactions d @ [adjustment pr (DDate d) pos diff]\<rparr>"
      have r: "computeValuationTransactions_range V pr ps day2 = Return day'"
        using Cons.prems(5) False val nz by (auto simp add: x Let_def day2_def diff_def)
      have rel: "VDate day2 = DDate d2" "VValues day2 = DValue d2" "VPrices day2 = DNormalized d2"
          "VTransactions day2 = DTransactions d2"
        using Cons.prems(1-4) by (simp_all add: day2_def d2_def)
      have step: "processValuationTransactions2_range V pr (x # ps) d =
                  processValuationTransactions2_range V pr ps d2"
        using False val nz Cons.prems(2,3)
        by (auto simp add: x Let_def d2_def diff_def)
      show ?thesis
        unfolding step using Cons.IH [OF rel r] by (simp add: d2_def)
    qed
  qed
qed

text \<open>Whatever the prices, and also when a value is missing, the step leaves the amounts
  of the day alone: only the values and the transactions of a day ever change.\<close>

lemma processValuationTransactions2_range_frame:
  "fst (processValuationTransactions2_range V pr ps d) =
     d\<lparr>DValue := DValue (fst (processValuationTransactions2_range V pr ps d)),
       DTransactions := DTransactions (fst (processValuationTransactions2_range V pr ps d))\<rparr>"
proof (induction ps arbitrary: d)
  case Nil
  then show ?case by simp
next
  case (Cons x ps)
  obtain pos va where x: "x = (pos, va)" by (cases x)
  show ?case
    unfolding x processValuationTransactions2_range.simps Let_def
    by (auto split: option.splits intro: Cons.IH [THEN trans])
qed


lemma computeValuationTransactions_range_frame:
  "computeValuationTransactions_range V pr ps day = Return day' \<Longrightarrow>
     day' = day\<lparr>VTransactions := VTransactions day', VValues := VValues day'\<rparr>"
proof (induction ps arbitrary: day)
  case Nil
  then show ?case by auto
next
  case (Cons x ps)
  obtain pos va where x: "x = (pos, va)" by (cases x)
  show ?case
    using Cons.prems unfolding x computeValuationTransactions_range.simps Let_def
    by (auto split: option.splits if_splits dest!: Cons.IH)
qed

lemma valuation_step_keeps_amounts:
  "DAmounts (fst (processValuationTransactions2 V pr d)) = DAmounts d"
  "computeValuationTransactions V pr day = Return day' \<Longrightarrow> DAmounts (VDay day') = DAmounts (VDay day)"
proof -
  show "DAmounts (fst (processValuationTransactions2 V pr d)) = DAmounts d"
    unfolding processValuationTransactions2_def
    by (subst processValuationTransactions2_range_frame) simp
  assume "computeValuationTransactions V pr day = Return day'"
  then have "day' = day \<or> computeValuationTransactions_range V pr (DAmounts (VDay day)) day = Return day'"
    by (auto simp add: computeValuationTransactions_def split: if_splits)
  then show "DAmounts (VDay day') = DAmounts (VDay day)"
  proof
    assume "day' = day" then show ?thesis by simp
  next
    assume "computeValuationTransactions_range V pr (DAmounts (VDay day)) day = Return day'"
    from computeValuationTransactions_range_frame [OF this] show ?thesis
      by (metis val_Day.select_convs(2) val_Day.surjective val_Day.update_convs(3,5))
  qed
qed

text \<open>
  Claim C5. With a valuation commodity configured, a valuation account that is neither an
  asset nor a liability, and a value found for every revalued position, the adjustment
  step of both valuators returns without error or panic; it appends to the day's
  transactions, for each asset or liability position in another commodity than the
  valuation commodity whose recomputed value differs from the recorded value, one
  transaction of the day's date that credits the valuation account and debits the
  position's account with exactly the difference, and none for any other position; every
  revalued position then has its recomputed value recorded; and nothing of the day but its
  values and its transactions changes, the amounts included.
\<close>

theorem adjustments_for_revalued_positions:
  assumes "PValuation pr \<noteq> None"
    and "\<forall>a. Type (ValuationAccountFor pr a) \<noteq> ASSETS \<and> Type (ValuationAccountFor pr a) \<noteq> LIABILITIES"
    and "distinct (map fst (DAmounts (VDay day)))"
    and "\<forall>(pos, va)\<in>set (DAmounts (VDay day)). isRevalued pr pos \<longrightarrow> V (VPrices day) (Commodity pos) va \<noteq> None"
    and "distinct (map fst (DAmounts d))"
    and "\<forall>(pos, va)\<in>set (DAmounts d). isRevalued pr pos \<longrightarrow> V (DNormalized d) (Commodity pos) va \<noteq> None"
  shows "(case computeValuationTransactions V pr day of
            Panic msg \<Rightarrow> False
          | Return day' \<Rightarrow>
              day' = day\<lparr>VTransactions := VTransactions day', VValues := VValues day'\<rparr> \<and>
              DAmounts (VDay day') = DAmounts (VDay day) \<and>
              VTransactions day' =
                VTransactions day @
                map (\<lambda>(pos, va).
                  \<lparr>ADate = (VDate day),
                    ADescription = ''Adjust value of '' @ Commodity pos @ '' in account '' @ Name (Account pos),
                    APostings =
                      [\<lparr>ACredit = ValuationAccountFor pr (Account pos), ADebit = Account pos,
                        ACommodity = Commodity pos,
                        AAmount = the (V (VPrices day) (Commodity pos) va) - get_decimal (VValues day) pos,
                        Targets = [Commodity pos]\<rparr>]\<rparr>)
                  (filter (\<lambda>(pos, va). isRevalued pr pos \<and>
                             the (V (VPrices day) (Commodity pos) va) \<noteq> get_decimal (VValues day) pos)
                     (DAmounts (VDay day))) \<and>
              (\<forall>(pos, va)\<in>set (DAmounts (VDay day)). isRevalued pr pos \<longrightarrow>
                 get_decimal (VValues day') pos = the (V (VPrices day) (Commodity pos) va))) \<and>
         (case processValuationTransactions2 V pr d of
            (d', err) \<Rightarrow>
              err = None \<and>
              d' = d\<lparr>DValue := DValue d', DTransactions := DTransactions d'\<rparr> \<and>
              DAmounts d' = DAmounts d \<and>
              DTransactions d' =
                DTransactions d @ map (\<lambda>(pos, va).
                  \<lparr>ADate = (DDate d),
                    ADescription = ''Adjust value of '' @ Commodity pos @ '' in account '' @ Name (Account pos),
                    APostings =
                      [\<lparr>ACredit = ValuationAccountFor pr (Account pos), ADebit = Account pos,
                        ACommodity = Commodity pos,
                        AAmount = the (V (DNormalized d) (Commodity pos) va) - get_decimal (DValue d) pos,
                        Targets = [Commodity pos]\<rparr>]\<rparr>)
                  (filter (\<lambda>(pos, va). isRevalued pr pos \<and>
                             the (V (DNormalized d) (Commodity pos) va) \<noteq> get_decimal (DValue d) pos)
                     (DAmounts d)) \<and>
              (\<forall>(pos, va)\<in>set (DAmounts d). isRevalued pr pos \<longrightarrow>
                 get_decimal (DValue d') pos = the (V (DNormalized d) (Commodity pos) va)))"
proof -
  from computeValuationTransactions_range_spec
    [where ps = "DAmounts (VDay day)" and pr = pr and V = V and day = day, OF assms(3) assms(2) assms(4)]
  obtain vals' where
    R: "computeValuationTransactions_range V pr (DAmounts (VDay day)) day =
           Return (day\<lparr>VTransactions := VTransactions day @
                         adjustments V pr (VPrices day) (VDate day) (VValues day) (DAmounts (VDay day)),
                       VValues := vals'\<rparr>)" and
    G: "\<forall>(pos, va)\<in>set (DAmounts (VDay day)). isRevalued pr pos \<longrightarrow>
             get_decimal vals' pos = the (V (VPrices day) (Commodity pos) va)"
    by blast
  have A: "case computeValuationTransactions V pr day of
            Panic msg \<Rightarrow> False
          | Return day' \<Rightarrow>
              day' = day\<lparr>VTransactions := VTransactions day', VValues := VValues day'\<rparr> \<and>
              DAmounts (VDay day') = DAmounts (VDay day) \<and>
              VTransactions day' =
                VTransactions day @
                adjustments V pr (VPrices day) (VDate day) (VValues day) (DAmounts (VDay day)) \<and>
              (\<forall>(pos, va)\<in>set (DAmounts (VDay day)). isRevalued pr pos \<longrightarrow>
                 get_decimal (VValues day') pos = the (V (VPrices day) (Commodity pos) va))"
    using assms(1) R G by (auto simp add: computeValuationTransactions_def)
  define day0 where "day0 =
    \<lparr>VDate = DDate d, VDay = d, VValues = DValue d, VPrices = DNormalized d, VTransactions = DTransactions d\<rparr>"
  have p0: "\<forall>(pos, va)\<in>set (DAmounts d). isRevalued pr pos \<longrightarrow> V (VPrices day0) (Commodity pos) va \<noteq> None"
    using assms(6) by (simp add: day0_def)
  from computeValuationTransactions_range_spec
    [where ps = "DAmounts d" and pr = pr and V = V and day = day0, OF assms(5) assms(2) p0]
  obtain vals0 where
    R0: "computeValuationTransactions_range V pr (DAmounts d) day0 =
           Return (day0\<lparr>VTransactions := VTransactions day0 @
                         adjustments V pr (VPrices day0) (VDate day0) (VValues day0) (DAmounts d),
                       VValues := vals0\<rparr>)" and
    G0: "\<forall>(pos, va)\<in>set (DAmounts d). isRevalued pr pos \<longrightarrow>
             get_decimal vals0 pos = the (V (VPrices day0) (Commodity pos) va)"
    by blast
  have rel: "VDate day0 = DDate d" "VValues day0 = DValue d" "VPrices day0 = DNormalized d"
      "VTransactions day0 = DTransactions d"
    by (simp_all add: day0_def)
  have B: "processValuationTransactions2 V pr d =
      (d\<lparr>DValue := vals0,
         DTransactions := DTransactions d @ adjustments V pr (DNormalized d) (DDate d) (DValue d) (DAmounts d)\<rparr>,
       None)"
    using processValuationTransactions2_range_simulates [OF rel R0]
    by (simp add: processValuationTransactions2_def rel)
  have main: "(case computeValuationTransactions V pr day of
            Panic msg \<Rightarrow> False
          | Return day' \<Rightarrow>
              day' = day\<lparr>VTransactions := VTransactions day', VValues := VValues day'\<rparr> \<and>
              DAmounts (VDay day') = DAmounts (VDay day) \<and>
              VTransactions day' =
                VTransactions day @
                adjustments V pr (VPrices day) (VDate day) (VValues day) (DAmounts (VDay day)) \<and>
              (\<forall>(pos, va)\<in>set (DAmounts (VDay day)). isRevalued pr pos \<longrightarrow>
                 get_decimal (VValues day') pos = the (V (VPrices day) (Commodity pos) va))) \<and>
         (case processValuationTransactions2 V pr d of
            (d', err) \<Rightarrow>
              err = None \<and>
              d' = d\<lparr>DValue := DValue d', DTransactions := DTransactions d'\<rparr> \<and>
              DAmounts d' = DAmounts d \<and>
              DTransactions d' =
                DTransactions d @ adjustments V pr (DNormalized d) (DDate d) (DValue d) (DAmounts d) \<and>
              (\<forall>(pos, va)\<in>set (DAmounts d). isRevalued pr pos \<longrightarrow>
                 get_decimal (DValue d') pos = the (V (DNormalized d) (Commodity pos) va)))"
    using A G0 by (simp add: B rel)
  then show ?thesis
    unfolding adjustments_def .
qed


lemma holdings_fields:
  "DAmounts holdings = [(cashCHF, 100), (foodCHF, 50), (cashUSD, 7)]" "DValue holdings = [(cashCHF, 100)]"
  "DDate holdings = 19358" "DNormalized holdings = []" "DTransactions holdings = []"
  "VDay valHoldings = holdings" "VDate valHoldings = 19358" "VValues valHoldings = [(cashCHF, 100)]"
  "VPrices valHoldings = []" "VTransactions valHoldings = []"
  by (simp_all add: holdings_def valHoldings_def newDay_def)

lemma positions_distinct: "distinct [cashCHF, foodCHF, cashUSD]"
  by (simp add: cashCHF_def foodCHF_def cashUSD_def cash_def food_def CHF_def USD_def)

lemma isRevalued_examples:
  "isRevalued usdValuator cashCHF" "\<not> isRevalued usdValuator foodCHF" "\<not> isRevalued usdValuator cashUSD"
  by (simp_all add: isRevalued_def usdValuator_def cashCHF_def foodCHF_def cashUSD_def cash_def food_def
      CHF_def USD_def)

lemma fixedRate_cashCHF: "fixedRate prices (Commodity cashCHF) 100 = Some 110"
  by (simp add: fixedRate_def cashCHF_def)

theorem adjustments_for_revalued_positions_witness:
  "(case computeValuationTransactions fixedRate usdValuator valHoldings of
      Panic msg \<Rightarrow> False
    | Return day' \<Rightarrow>
        DAmounts (VDay day') = [(cashCHF, 100), (foodCHF, 50), (cashUSD, 7)] \<and>
        VTransactions day' = [\<lparr>ADate = 19358,
             ADescription = ''Adjust value of CHF in account Assets:Cash'',
             APostings =
               [\<lparr>ACredit = \<lparr>Type = EQUITY, Name = ''Equity:Valuation:Assets:Cash''\<rparr>,
                 ADebit = \<lparr>Type = ASSETS, Name = ''Assets:Cash''\<rparr>,
                 ACommodity = ''CHF'', AAmount = 10, Targets = [''CHF'']\<rparr>]\<rparr>] \<and>
        get_decimal (VValues day') cashCHF = 110) \<and>
   (case processValuationTransactions2 fixedRate usdValuator holdings of
      (d', err) \<Rightarrow>
        err = None \<and>
        DAmounts d' = [(cashCHF, 100), (foodCHF, 50), (cashUSD, 7)] \<and>
        DTransactions d' = [\<lparr>ADate = 19358,
             ADescription = ''Adjust value of CHF in account Assets:Cash'',
             APostings =
               [\<lparr>ACredit = \<lparr>Type = EQUITY, Name = ''Equity:Valuation:Assets:Cash''\<rparr>,
                 ADebit = \<lparr>Type = ASSETS, Name = ''Assets:Cash''\<rparr>,
                 ACommodity = ''CHF'', AAmount = 10, Targets = [''CHF'']\<rparr>]\<rparr>] \<and>
        get_decimal (DValue d') cashCHF = 110)"
proof -
  have v: "PValuation usdValuator \<noteq> None" by (simp add: usdValuator_def)
  have e: "\<forall>a. Type (ValuationAccountFor usdValuator a) \<noteq> ASSETS \<and>
               Type (ValuationAccountFor usdValuator a) \<noteq> LIABILITIES"
    by (simp add: usdValuator_def)
  have d1: "distinct (map fst (DAmounts (VDay valHoldings)))"
    using positions_distinct by (simp add: holdings_fields)
  have d2: "distinct (map fst (DAmounts holdings))"
    using positions_distinct by (simp add: holdings_fields)
  have p1: "\<forall>(pos, va)\<in>set (DAmounts (VDay valHoldings)). isRevalued usdValuator pos \<longrightarrow>
              fixedRate (VPrices valHoldings) (Commodity pos) va \<noteq> None"
    by (simp add: holdings_fields isRevalued_examples fixedRate_cashCHF)
  have p2: "\<forall>(pos, va)\<in>set (DAmounts holdings). isRevalued usdValuator pos \<longrightarrow>
              fixedRate (DNormalized holdings) (Commodity pos) va \<noteq> None"
    by (simp add: holdings_fields isRevalued_examples fixedRate_cashCHF)
  have c: "Commodity cashCHF = ''CHF''" "Account cashCHF = \<lparr>Type = ASSETS, Name = ''Assets:Cash''\<rparr>"
    by (simp_all add: cashCHF_def CHF_def cash_def)
  have g: "get_decimal [(cashCHF, 100)] cashCHF = 100"
    by (simp add: get_decimal_def)
  have f: "ValuationAccountFor usdValuator a = \<lparr>Type = EQUITY, Name = ''Equity:Valuation:'' @ Name a\<rparr>" for a
    by (simp add: usdValuator_def)
  from adjustments_for_revalued_positions [OF v e d1 p1 d2 p2] show ?thesis
    by (simp add: holdings_fields isRevalued_examples fixedRate_cashCHF g f
        split: outcome.splits prod.splits) (simp add: c)
qed

text \<open>
  Claim C6 fails on the code. With a position in CHF and no value for CHF,
  \<open>computeValuationTransactions\<close> panics; \<open>processValuationTransactions2\<close> returns an error
  that names the commodity and no date, and the call in \<open>Process2\<close> drops that error and
  leaves the day unchanged.
\<close>

theorem computeValuationTransactions_panics_without_path:
  "computeValuationTransactions noPath usdValuator valHoldings =
     Panic ''no valuation found for commodity CHF'' \<and>
   processValuationTransactions2 noPath usdValuator holdings = (holdings, Some (NoValuationFound CHF)) \<and>
   Process2_adjust noPath usdValuator holdings = holdings"
  by (simp add: computeValuationTransactions_def processValuationTransactions2_def Process2_adjust_def
      holdings_fields noPath_def usdValuator_def cashCHF_def cash_def CHF_def USD_def)

section \<open>The order of the sorter\<close>

text \<open>
  Claim C7 fails on the code. A price and an open directive of the same date leave
  \<open>Sorter.Finalize\<close> with the open directive first.
\<close>

theorem Sorter_emits_open_before_price:
  "Sorter_Finalize (fst (Sorter_Process (fst (Sorter_Process [] (19358, EPrice chfPrice))) (19358, EOpen cashOpen))) =
     [(19358, EOpen cashOpen), (19358, EPrice chfPrice)]"
  by (simp add: Sorter_Finalize_def Sorter_Process_def AddPrice_def AddOpen_def AST_Day_def newDay_def
      SortedDays_def Finalize_day_def cashOpen_def chfPrice_def Let_def)


end
